theory Spec2Isabelle
  imports Complex_Main "HOL-Library.AList"
begin

section \<open>Numbers of the language\<close>

text \<open>
  The server is JavaScript: every number is an IEEE double. The model keeps the three
  special values the code can meet (\<open>NaN\<close> and the two infinities) and idealises a finite
  double as the real number it stands for, so rounding and overflow to infinity are not
  modelled, and the sign of zero is dropped (no operation of the server reads it).
\<close>

datatype jsnum = NaN | NInf | Fin real | PInf

fun js_neg :: "jsnum \<Rightarrow> jsnum" where
  "js_neg NaN = NaN"
| "js_neg NInf = PInf"
| "js_neg PInf = NInf"
| "js_neg (Fin a) = Fin (- a)"

fun js_add :: "jsnum \<Rightarrow> jsnum \<Rightarrow> jsnum" where
  "js_add (Fin a) (Fin c) = Fin (a + c)"
| "js_add NaN _ = NaN"
| "js_add _ NaN = NaN"
| "js_add PInf NInf = NaN"
| "js_add NInf PInf = NaN"
| "js_add PInf _ = PInf"
| "js_add _ PInf = PInf"
| "js_add NInf _ = NInf"
| "js_add _ NInf = NInf"

definition js_sub :: "jsnum \<Rightarrow> jsnum \<Rightarrow> jsnum" where
  "js_sub a c = js_add a (js_neg c)"

text \<open>The sign of a number that is not \<open>NaN\<close>: \<open>-1\<close>, \<open>0\<close> or \<open>1\<close>.\<close>

fun js_sign :: "jsnum \<Rightarrow> int" where
  "js_sign NaN = 0"
| "js_sign NInf = - 1"
| "js_sign PInf = 1"
| "js_sign (Fin a) = (if a < 0 then - 1 else if a = 0 then 0 else 1)"

fun js_mul :: "jsnum \<Rightarrow> jsnum \<Rightarrow> jsnum" where
  "js_mul (Fin a) (Fin c) = Fin (a * c)"
| "js_mul NaN _ = NaN"
| "js_mul _ NaN = NaN"
| "js_mul a c =
     (if js_sign a * js_sign c = 0 then NaN
      else if js_sign a * js_sign c < 0 then NInf else PInf)"

text \<open>\<open>a < c\<close> of the language: false as soon as one side is \<open>NaN\<close>.\<close>

fun js_lt :: "jsnum \<Rightarrow> jsnum \<Rightarrow> bool" where
  "js_lt (Fin a) (Fin c) = (a < c)"
| "js_lt NaN _ = False"
| "js_lt _ NaN = False"
| "js_lt NInf NInf = False"
| "js_lt NInf _ = True"
| "js_lt _ NInf = False"
| "js_lt PInf _ = False"
| "js_lt _ PInf = True"

text \<open>\<open>Math.min\<close> and \<open>Math.max\<close> of two arguments: \<open>NaN\<close> when one of them is.\<close>

fun js_min :: "jsnum \<Rightarrow> jsnum \<Rightarrow> jsnum" where
  "js_min NaN _ = NaN"
| "js_min _ NaN = NaN"
| "js_min a c = (if js_lt c a then c else a)"

fun js_max :: "jsnum \<Rightarrow> jsnum \<Rightarrow> jsnum" where
  "js_max NaN _ = NaN"
| "js_max _ NaN = NaN"
| "js_max a c = (if js_lt a c then c else a)"

fun js_abs :: "jsnum \<Rightarrow> jsnum" where
  "js_abs NaN = NaN"
| "js_abs NInf = PInf"
| "js_abs PInf = PInf"
| "js_abs (Fin a) = Fin \<bar>a\<bar>"

fun js_sqrt :: "jsnum \<Rightarrow> jsnum" where
  "js_sqrt NaN = NaN"
| "js_sqrt NInf = NaN"
| "js_sqrt PInf = PInf"
| "js_sqrt (Fin a) = (if a < 0 then NaN else Fin (sqrt a))"

text \<open>\<open>Math.pow(v, 2)\<close>, the only power the server takes.\<close>

fun js_pow2 :: "jsnum \<Rightarrow> jsnum" where
  "js_pow2 NaN = NaN"
| "js_pow2 NInf = PInf"
| "js_pow2 PInf = PInf"
| "js_pow2 (Fin a) = Fin (a * a)"

text \<open>Truthiness of a number: \<open>NaN\<close> and zero are falsy. \<open>or_zero v\<close> is \<open>v || 0\<close>.\<close>

fun truthy :: "jsnum \<Rightarrow> bool" where
  "truthy NaN = False"
| "truthy (Fin a) = (a \<noteq> 0)"
| "truthy _ = True"

definition or_zero :: "jsnum \<Rightarrow> jsnum" where
  "or_zero v = (if truthy v then v else Fin 0)"

section \<open>Game constants\<close>

definition MAX_LAP :: int where "MAX_LAP = 2"
definition COURSE_LENGTH_Z :: real where "COURSE_LENGTH_Z = 1000"
definition TRACK_WIDTH_X :: real where "TRACK_WIDTH_X = 250"
definition GEKITOTSU_CHARGE_MAX :: real where "GEKITOTSU_CHARGE_MAX = 10"
definition ACCEL_Z_THRESHOLD :: real where "ACCEL_Z_THRESHOLD = 20"
definition PLAYER_COLLISION_RADIUS :: real where "PLAYER_COLLISION_RADIUS = 40"

section \<open>Data model of \<open>server.js\<close>\<close>

datatype status = Lobby | Playing | Finished

text \<open>
  A player object. \<open>pid\<close> is the field \<open>id\<close>, \<open>speed_x2_active\<close> the one flag of
  \<open>effects\<close>; \<open>mode\<close> is \<open>None\<close> for \<open>null\<close> and otherwise the string the client sent;
  \<open>finishTime\<close> is \<open>None\<close> for \<open>null\<close>; \<open>finalRank\<close> is \<open>None\<close> until a ranking pass
  writes it. \<open>points\<close>, \<open>lap\<close> and the ranks only ever hold integers. \<open>obj\<close> is the
  identity of the object itself: a disconnect followed by a connect under the same
  identifier makes a new object, and the closure of a boost timer keeps the old one.
\<close>

record player =
  pid :: string
  x :: jsnum
  y :: jsnum
  z :: jsnum
  speed :: jsnum
  baseSpeed :: jsnum
  gekitotsuForce :: jsnum
  points :: int
  lap :: int
  status :: status
  mode :: "string option"
  speed_x2_active :: bool
  finishTime :: "int option"
  totalPoints :: int
  finalRank :: "int option"
  obj :: nat

datatype obstype = Box | Bonus

text \<open>
  An obstacle of the static table. Its coordinates and size are finite constants. A bonus
  has no \<open>points\<close> field (the code reads it for a box only) and a box no \<open>effect\<close>;
  \<open>collided\<close> is absent in the table, which \<open>=== true\<close> reads as false.
\<close>

record obstacle =
  type_o :: obstype
  x_o :: real
  y_o :: real
  z_o :: real
  points_o :: int
  effect_o :: "string option"
  size_o :: real
  collided :: bool

definition box :: "real \<Rightarrow> real \<Rightarrow> obstacle" where
  "box ox oz = \<lparr>type_o = Box, x_o = ox, y_o = 0, z_o = oz, points_o = 5,
     effect_o = None, size_o = 30, collided = False\<rparr>"

definition obstacles_table :: "obstacle list" where
  "obstacles_table =
     [box 100 (- 100), box (- 150) (- 350), box 50 (- 600), box (- 200) (- 850),
      \<lparr>type_o = Bonus, x_o = 0, y_o = 0, z_o = - 500, points_o = 0,
       effect_o = Some ''speed_x2'', size_o = 20, collided = False\<rparr>]"

text \<open>
  A deferred action of \<open>setTimeout\<close>: the reactivation of the obstacle at an index of the
  table, or the end of the boost of one player object.
\<close>

datatype task = ReactivateObstacle nat | ExpireBoost nat

type_synonym store = "(string \<times> player) list"

text \<open>
  The store is a plain object, so \<open>players[clientId]\<close> also finds the twelve members of
  \<open>Object.prototype\<close>. Eleven of them are functions, built-in objects of their own;
  \<open>__proto__\<close> gives \<open>Object.prototype\<close> itself. All of them are truthy.
\<close>

definition protoNames :: "string list" where
  "protoNames =
     [''constructor'', ''__defineGetter__'', ''__defineSetter__'', ''hasOwnProperty'',
      ''__lookupGetter__'', ''__lookupSetter__'', ''isPrototypeOf'', ''propertyIsEnumerable'',
      ''toString'', ''valueOf'', ''__proto__'', ''toLocaleString'']"

definition protoName :: "string \<Rightarrow> bool" where
  "protoName k = (k \<in> set protoNames)"

text \<open>
  The fields that \<open>join_game\<close> writes on a built-in function when it is addressed as a
  player. A built-in that no join has addressed has none of them: its \<open>status\<close> is
  \<open>undefined\<close>.
\<close>

record builtin =
  status_b :: status
  mode_b :: "string option"
  z_b :: jsnum
  lap_b :: int
  points_b :: int
  gekitotsuForce_b :: jsnum
  finishTime_b :: "int option"

text \<open>
  The process state: the player store in the order the language enumerates its keys, the
  counter of generated identifiers, the obstacle table, the pending timers, the
  next free object identity, and the built-in functions that a join has written on.
\<close>

record state =
  players :: store
  nextPlayerId :: nat
  obstacles :: "obstacle list"
  timers :: "task list"
  nextObj :: nat
  builtins :: "(string \<times> builtin) list"

definition initial :: state where
  "initial = \<lparr>players = [], nextPlayerId = 1, obstacles = obstacles_table, timers = [],
     nextObj = 0, builtins = []\<rparr>"

text \<open>
  What \<open>players[clientId]\<close> gives: the player under an own key of the store; else, for a
  name of \<open>Object.prototype\<close>, the built-in of that name, with the fields a join has
  written on it if there are any (none on \<open>Object.prototype\<close> itself, see \<open>join_game\<close>);
  else \<open>undefined\<close>.
\<close>

datatype found = Absent | Own player | BuiltIn "builtin option"

definition lookup :: "state \<Rightarrow> string \<Rightarrow> found" where
  "lookup st k =
     (case map_of (players st) k of
        Some p \<Rightarrow> Own p
      | None \<Rightarrow>
          if k = ''__proto__'' then BuiltIn None
          else if protoName k then BuiltIn (map_of (builtins st) k)
          else Absent)"

text \<open>
  A field of a telemetry payload: missing, present with a value that is no number
  (\<open>null\<close>, a string without a numeral, an object), or a number (also as the string
  that writes it, which is how an infinity can arrive).
  \<open>tel_b\<close>, \<open>tel_g\<close> and \<open>tel_accelerationZ\<close> are the fields \<open>b\<close>, \<open>g\<close> and
  \<open>accelerationZ\<close>.
\<close>

datatype jsval = Undefined | NonNumeric | Num jsnum

record telemetry =
  tel_b :: jsval
  tel_g :: jsval
  tel_accelerationZ :: jsval

definition parseFloat :: "jsval \<Rightarrow> jsnum" where
  "parseFloat v = (case v of Num n \<Rightarrow> n | _ \<Rightarrow> NaN)"

text \<open>
  How a handler ends early: with a \<open>TypeError\<close> that nothing catches, which ends the
  process; or, for the model, with a write on \<open>Object.prototype\<close> itself (an event that
  addresses \<open>__proto__\<close> as a player). After such a write every object of the process
  inherits the written fields, and the model does not describe the process any further.
\<close>

datatype error = TypeError | PrototypeWritten

section \<open>The update of \<open>server.js\<close>\<close>

definition getDistance :: "jsnum \<times> jsnum \<Rightarrow> jsnum \<times> jsnum \<Rightarrow> jsnum" where
  "getDistance p1 p2 =
     js_sqrt (js_add (js_pow2 (js_sub (fst p1) (fst p2)))
                     (js_pow2 (js_sub (snd p1) (snd p2))))"

definition checkCollision :: "player \<Rightarrow> obstacle \<Rightarrow> bool" where
  "checkCollision p obs =
     (let distanceThreshold = Fin (25 + size_o obs / 2);
          dist = getDistance (x p, z p) (Fin (x_o obs), Fin (z_o obs))
      in js_lt dist distanceThreshold)"

text \<open>Lines 64 to 91: the telemetry sample moves the player.\<close>

definition charge :: "player \<Rightarrow> player" where
  "charge p = p\<lparr>gekitotsuForce :=
     js_min (js_add (gekitotsuForce p) (Fin 2)) (Fin GEKITOTSU_CHARGE_MAX)\<rparr>"

definition processInput :: "telemetry \<Rightarrow> player \<Rightarrow> player" where
  "processInput d p =
     (let beta = or_zero (parseFloat (tel_b d));
          currentAccelZ = js_abs (or_zero (parseFloat (tel_accelerationZ d)));
          p1 = (if js_lt (Fin ACCEL_Z_THRESHOLD) currentAccelZ then charge p else p);
          moveSpeed = Fin 1;
          p2 = p1\<lparr>x := js_add (x p1) (js_mul (js_mul beta moveSpeed) (Fin (1 / 10)))\<rparr>;
          p3 = p2\<lparr>x := js_max (Fin (- TRACK_WIDTH_X)) (js_min (Fin TRACK_WIDTH_X) (x p2))\<rparr>;
          p4 = p3\<lparr>baseSpeed := Fin 3\<rparr>;
          p5 = (if speed_x2_active p4 then p4\<lparr>speed := js_mul (baseSpeed p4) (Fin 2)\<rparr>
                else p4\<lparr>speed := js_add (baseSpeed p4)
                                      (js_mul (gekitotsuForce p4) (Fin (2 / 10)))\<rparr>)
      in p5\<lparr>z := js_sub (z p5) (speed p5)\<rparr>)"

text \<open>
  Lines 94 to 118: the body of \<open>obstacles.forEach\<close> for the obstacle at \<open>index\<close>, giving
  the player, the obstacle and the timers it schedules.
\<close>

definition obstacleStep :: "nat \<Rightarrow> obstacle \<Rightarrow> player \<Rightarrow> player \<times> obstacle \<times> task list" where
  "obstacleStep index obs p =
     (if checkCollision p obs then
        (if collided obs then (p, obs, [])
         else
           (let obs1 = obs\<lparr>collided := True\<rparr>;
                p1 = p\<lparr>speed := js_add (speed p) (js_mul (gekitotsuForce p) (Fin (7 / 10)))\<rparr>;
                p2 = p1\<lparr>gekitotsuForce := Fin 0\<rparr>
            in if type_o obs = Box then
                 (p2\<lparr>points := points p2 + points_o obs\<rparr>, obs1, [ReactivateObstacle index])
               else if type_o obs = Bonus \<and> effect_o obs = Some ''speed_x2'' then
                 (p2\<lparr>speed_x2_active := True, points := points p2 + 20\<rparr>, obs1,
                  [ExpireBoost (obj p)])
               else (p2, obs1, [])))
      else (p, obs, []))"

fun obstaclePass :: "nat \<Rightarrow> obstacle list \<Rightarrow> player \<Rightarrow> player \<times> obstacle list \<times> task list" where
  "obstaclePass index [] p = (p, [], [])"
| "obstaclePass index (obs # rest) p =
     (case obstacleStep index obs p of
        (p1, obs1, ts1) \<Rightarrow>
          (case obstaclePass (Suc index) rest p1 of
             (p2, rest2, ts2) \<Rightarrow> (p2, obs1 # rest2, ts1 @ ts2)))"

text \<open>
  Lines 121 to 137: the loop over the store. The entry of \<open>clientId\<close> is the updating
  player itself and is skipped; the loop returns the updating player and the store with
  the other players it touched.
\<close>

definition clashes :: "player \<Rightarrow> player \<Rightarrow> bool" where
  "clashes p other =
     js_lt (getDistance (x p, z p) (x other, z other)) (Fin PLAYER_COLLISION_RADIUS)"

fun playerPass :: "string \<Rightarrow> store \<Rightarrow> player \<Rightarrow> player \<times> store" where
  "playerPass clientId [] p = (p, [])"
| "playerPass clientId ((otherId, otherPlayer) # rest) p =
     (if otherId \<noteq> clientId \<and> mode otherPlayer = Some ''multi''
         \<and> status otherPlayer = Playing \<and> clashes p otherPlayer
      then
        (let p1 = charge p;
             other1 = charge otherPlayer;
             p2 = p1\<lparr>speed := js_max (Fin 1) (js_mul (speed p1) (Fin (8 / 10)))\<rparr>
         in case playerPass clientId rest p2 of
              (p3, rest') \<Rightarrow> (p3, (otherId, other1) # rest'))
      else
        (case playerPass clientId rest p of
           (p3, rest') \<Rightarrow> (p3, (otherId, otherPlayer) # rest')))"

text \<open>Lines 141 to 150; \<open>now\<close> is what \<open>Date.now()\<close> returns.\<close>

definition lapCheck :: "int \<Rightarrow> player \<Rightarrow> player" where
  "lapCheck now p =
     (if js_lt (z p) (Fin (- COURSE_LENGTH_Z)) then
        (let p1 = p\<lparr>lap := lap p + 1\<rparr>;
             p2 = p1\<lparr>z := js_add (z p1) (Fin COURSE_LENGTH_Z)\<rparr>
         in if lap p2 \<ge> MAX_LAP then p2\<lparr>status := Finished, finishTime := Some now\<rparr>
            else p2)
      else p)"

text \<open>
  \<open>updateGameLogic(clientId, data)\<close>. A payload that is \<open>undefined\<close> or \<open>null\<close> is
  \<open>None\<close>: reading \<open>data.b\<close> then throws, after the guard of line 61 and before anything
  is written. A built-in has no \<open>status\<close> and stops at the guard, unless a join has set it
  to playing: then the payload is read (line 64), the charge, \<open>x\<close> and the base speed are
  written on the built-in, and line 85 throws, for a built-in has no \<open>effects\<close>.
\<close>

definition updateGameLogic :: "int \<Rightarrow> string \<Rightarrow> telemetry option \<Rightarrow> state \<Rightarrow> error + state" where
  "updateGameLogic now clientId data st =
     (case lookup st clientId of
        Absent \<Rightarrow> Inr st
      | BuiltIn f \<Rightarrow>
          (case f of
             None \<Rightarrow> Inr st
           | Some b \<Rightarrow>
               if status_b b \<noteq> Playing then Inr st
               else (case data of None \<Rightarrow> Inl TypeError | Some d \<Rightarrow> Inl TypeError))
      | Own player \<Rightarrow>
          if status player \<noteq> Playing then Inr st
          else
            (case data of
               None \<Rightarrow> Inl TypeError
             | Some d \<Rightarrow>
                 (let p1 = processInput d player in
                  case obstaclePass 0 (obstacles st) p1 of
                    (p2, obs', ts) \<Rightarrow>
                      (case (if mode p2 = Some ''multi''
                             then playerPass clientId (players st) p2
                             else (p2, players st)) of
                         (p3, others) \<Rightarrow>
                           Inr (st\<lparr>players := AList.update clientId (lapCheck now p3) others,
                                   obstacles := obs',
                                   timers := timers st @ ts\<rparr>)))))"

section \<open>Ranking\<close>

definition timeNum :: "int option \<Rightarrow> jsnum" where
  "timeNum t = (case t of None \<Rightarrow> Fin 0 | Some n \<Rightarrow> Fin (of_int n))"

text \<open>
  The comparator of line 167. In a subtraction \<open>null\<close> counts as zero, hence \<open>timeNum\<close>.
\<close>

definition compareRank :: "player \<Rightarrow> player \<Rightarrow> jsnum" where
  "compareRank a c =
     (if status a = Finished \<and> status c \<noteq> Finished then Fin (- 1)
      else if status a \<noteq> Finished \<and> status c = Finished then Fin 1
      else if status a = Finished \<and> status c = Finished
        then js_sub (timeNum (finishTime a)) (timeNum (finishTime c))
      else if lap a \<noteq> lap c then Fin (of_int (lap c - lap a))
      else js_sub (z a) (z c))"

text \<open>
  \<open>Array.prototype.sort\<close> is stable; it is modelled as the stable insertion sort, which
  moves an element behind another one exactly when the comparator is positive (a \<open>NaN\<close>
  result counts as zero).
\<close>

fun insertBy :: "('a \<Rightarrow> 'a \<Rightarrow> jsnum) \<Rightarrow> 'a \<Rightarrow> 'a list \<Rightarrow> 'a list" where
  "insertBy cmp a [] = [a]"
| "insertBy cmp a (c # cs) =
     (if js_lt (Fin 0) (cmp a c) then c # insertBy cmp a cs else a # c # cs)"

definition sortBy :: "('a \<Rightarrow> 'a \<Rightarrow> jsnum) \<Rightarrow> 'a list \<Rightarrow> 'a list" where
  "sortBy cmp xs = foldr (insertBy cmp) xs []"

definition active :: "player \<Rightarrow> bool" where
  "active p = (mode p = Some ''multi'' \<and> status p \<noteq> Lobby)"

fun assignRanks :: "nat \<Rightarrow> nat \<Rightarrow> player list \<Rightarrow> player list" where
  "assignRanks n index [] = []"
| "assignRanks n index (p # ps) =
     (let rankPoint = (int n - int index) * 100
      in p\<lparr>finalRank := Some (int index + 1), totalPoints := points p + rankPoint\<rparr>
         # assignRanks n (Suc index) ps)"

text \<open>
  \<open>calculateRanking()\<close> returns the sorted array; the objects in it are those of the
  store, so the store sees the ranks too.
\<close>

definition writeBack :: "player list \<Rightarrow> store \<Rightarrow> store" where
  "writeBack ranked s =
     map (\<lambda>(k, p). (k, case find (\<lambda>r. obj r = obj p) ranked of
                          Some r \<Rightarrow> r | None \<Rightarrow> p)) s"

definition calculateRanking :: "state \<Rightarrow> player list \<times> state" where
  "calculateRanking st =
     (let activePlayers = filter active (map snd (players st));
          sorted = sortBy compareRank activePlayers;
          ranked = assignRanks (length sorted) 0 sorted
      in (ranked, st\<lparr>players := writeBack ranked (players st)\<rparr>))"

section \<open>Events\<close>

definition digit :: "nat \<Rightarrow> char" where
  "digit n = ''0123456789'' ! n"

fun show_nat :: "nat \<Rightarrow> string" where
  "show_nat n = (if n < 10 then [digit n] else show_nat (n div 10) @ [digit (n mod 10)])"

declare show_nat.simps [simp del]

definition newPlayer :: "string \<Rightarrow> nat \<Rightarrow> player" where
  "newPlayer clientId ob =
     \<lparr>pid = clientId, x = Fin 0, y = Fin 0, z = Fin 0, speed = Fin 0, baseSpeed = Fin 3,
      gekitotsuForce = Fin 0, points = 0, lap = 0, status = Lobby, mode = None,
      speed_x2_active = False, finishTime = None, totalPoints = 0, finalRank = None,
      obj = ob\<rparr>"

text \<open>
  A connection, with the identifier of the handshake query if there is one (the empty
  string is falsy). It gives the identifier the socket is bound to. A player is made
  only when \<open>players[clientId]\<close> is falsy, so none is made under a name of
  \<open>Object.prototype\<close>. A new key goes to the end of the enumeration order; that is the
  order of the language for every key that is not the decimal numeral of an array index.
\<close>

definition connection :: "string option \<Rightarrow> state \<Rightarrow> string \<times> state" where
  "connection query st =
     (case (case query of
              Some (c # cs) \<Rightarrow> (c # cs, st)
            | _ \<Rightarrow> (''P'' @ show_nat (nextPlayerId st),
                    st\<lparr>nextPlayerId := Suc (nextPlayerId st)\<rparr>)) of
        (clientId, st1) \<Rightarrow>
          (case lookup st1 clientId of
             Absent \<Rightarrow>
               (clientId,
                st1\<lparr>players := players st1 @ [(clientId, newPlayer clientId (nextObj st1))],
                    nextObj := Suc (nextObj st1)\<rparr>)
           | _ \<Rightarrow> (clientId, st1)))"

record join_data =
  room :: string
  mode_j :: "string option"

text \<open>
  The handler of \<open>join_game\<close>. Destructuring a payload that is \<open>undefined\<close> throws, and
  so does the first assignment when \<open>players[clientId]\<close> is \<open>undefined\<close> (another socket
  of the same identifier has disconnected); nothing is written before. Under the name of
  a built-in function the seven assignments write on that function. Under \<open>__proto__\<close>
  they write on \<open>Object.prototype\<close>, where the model stops.
\<close>

definition join_game :: "string \<Rightarrow> join_data option \<Rightarrow> state \<Rightarrow> error + state" where
  "join_game clientId data st =
     (case data of
        None \<Rightarrow> Inl TypeError
      | Some d \<Rightarrow>
          (case lookup st clientId of
             Absent \<Rightarrow> Inl TypeError
           | BuiltIn f \<Rightarrow>
               if clientId = ''__proto__'' then Inl PrototypeWritten
               else
                 Inr (st\<lparr>builtins := AList.update clientId
                        \<lparr>status_b = Playing, mode_b = mode_j d, z_b = Fin 0, lap_b = 0,
                         points_b = 0, gekitotsuForce_b = Fin 0, finishTime_b = None\<rparr>
                        (builtins st)\<rparr>)
           | Own p \<Rightarrow>
               Inr (st\<lparr>players := AList.update clientId
                      (p\<lparr>status := Playing, mode := mode_j d, z := Fin 0, lap := 0,
                         points := 0, gekitotsuForce := Fin 0, finishTime := None\<rparr>)
                      (players st)\<rparr>)))"

text \<open>
  The handler of \<open>sensor\<close>: line 239 lets the update run when \<open>players[clientId]\<close> is
  truthy and its \<open>status\<close> is playing.
\<close>

definition sensor :: "int \<Rightarrow> string \<Rightarrow> telemetry option \<Rightarrow> state \<Rightarrow> error + state" where
  "sensor now clientId data st =
     (case lookup st clientId of
        Absent \<Rightarrow> Inr st
      | BuiltIn f \<Rightarrow>
          (case f of
             None \<Rightarrow> Inr st
           | Some b \<Rightarrow>
               if status_b b = Playing then updateGameLogic now clientId data st else Inr st)
      | Own p \<Rightarrow>
          if status p = Playing then updateGameLogic now clientId data st else Inr st)"

text \<open>\<open>delete players[clientId]\<close> removes an own key only.\<close>

definition disconnect :: "string \<Rightarrow> state \<Rightarrow> state" where
  "disconnect clientId st = st\<lparr>players := AList.delete clientId (players st)\<rparr>"

text \<open>The callbacks of the two timers, lines 109 and 115.\<close>

fun fire :: "task \<Rightarrow> state \<Rightarrow> state" where
  "fire (ReactivateObstacle i) st =
     (if i < length (obstacles st)
      then st\<lparr>obstacles := (obstacles st)[i := (obstacles st ! i)\<lparr>collided := False\<rparr>]\<rparr>
      else st)"
| "fire (ExpireBoost ob) st =
     st\<lparr>players := map (\<lambda>(k, p). (k, if obj p = ob then p\<lparr>speed_x2_active := False\<rparr> else p))
                       (players st)\<rparr>"

text \<open>
  The events the scheduler serialises. \<open>Timer t\<close> is the firing of the pending timer
  \<open>t\<close> (the earliest one scheduled, if several are alike); the model lets the pending
  timers fire in any order, and a timer that is not pending does not fire.
\<close>

datatype event =
    Connect "string option"
  | Join string "join_data option"
  | Sensor int string "telemetry option"
  | Disconnect string
  | Timer task

fun step :: "event \<Rightarrow> state \<Rightarrow> error + state" where
  "step (Connect query) st = Inr (snd (connection query st))"
| "step (Join clientId data) st = join_game clientId data st"
| "step (Sensor now clientId data) st = sensor now clientId data st"
| "step (Disconnect clientId) st = Inr (disconnect clientId st)"
| "step (Timer t) st =
     (if t \<in> set (timers st) then Inr (fire t (st\<lparr>timers := remove1 t (timers st)\<rparr>))
      else Inr st)"

text \<open>
  A run stops at the first handler that ends early: an exception that nothing catches
  ends the process, and the model does not follow a process with a written
  \<open>Object.prototype\<close>.
\<close>

fun run :: "state \<Rightarrow> event list \<Rightarrow> error + state" where
  "run st [] = Inr st"
| "run st (e # es) = (case step e st of Inl err \<Rightarrow> Inl err | Inr st' \<Rightarrow> run st' es)"

section \<open>The basic variant of the server\<close>

text \<open>
  The second source file is the server without modes, laps and ranking. Its names carry
  a \<open>0\<close>. A player has the one status \<open>connected\<close>; an obstacle has neither a size
  the code reads nor a \<open>collided\<close> flag.
\<close>

record player0 =
  pid0 :: string
  x0 :: jsnum
  y0 :: jsnum
  z0 :: jsnum
  speed0 :: jsnum
  gekitotsuForce0 :: jsnum
  points0 :: int
  lap0 :: int
  status0 :: string

record obstacle0 =
  type_o0 :: obstype
  x_o0 :: real
  y_o0 :: real
  z_o0 :: real
  points_o0 :: int
  effect_o0 :: "string option"

definition obstacles_table0 :: "obstacle0 list" where
  "obstacles_table0 =
     [\<lparr>type_o0 = Box, x_o0 = 100, y_o0 = 0, z_o0 = - 100, points_o0 = 5, effect_o0 = None\<rparr>,
      \<lparr>type_o0 = Box, x_o0 = - 150, y_o0 = 0, z_o0 = - 300, points_o0 = 5, effect_o0 = None\<rparr>,
      \<lparr>type_o0 = Bonus, x_o0 = 0, y_o0 = 0, z_o0 = - 500, points_o0 = 0,
       effect_o0 = Some ''speed_x2''\<rparr>]"

text \<open>
  A built-in function that the update has treated as a player: the fields the update
  writes, each \<open>None\<close> while the function has no such property. Reading a missing
  property in arithmetic gives \<open>NaN\<close>.
\<close>

record builtin0 =
  x_b0 :: "jsnum option"
  z_b0 :: "jsnum option"
  speed_b0 :: "jsnum option"
  gekitotsuForce_b0 :: "jsnum option"
  points_b0 :: "jsnum option"

definition untouched0 :: builtin0 where
  "untouched0 = \<lparr>x_b0 = None, z_b0 = None, speed_b0 = None, gekitotsuForce_b0 = None,
     points_b0 = None\<rparr>"

definition num :: "jsnum option \<Rightarrow> jsnum" where
  "num v = (case v of None \<Rightarrow> NaN | Some n \<Rightarrow> n)"

record state0 =
  players0 :: "(string \<times> player0) list"
  nextPlayerId0 :: nat
  builtins0 :: "(string \<times> builtin0) list"

definition checkCollision0 :: "player0 \<Rightarrow> obstacle0 \<Rightarrow> bool" where
  "checkCollision0 p obs =
     (let distanceThreshold = Fin 30;
          dist = js_sqrt (js_add (js_pow2 (js_sub (x0 p) (Fin (x_o0 obs))))
                                 (js_pow2 (js_sub (z0 p) (Fin (z_o0 obs)))))
      in js_lt dist distanceThreshold)"

text \<open>
  \<open>data.accelerationZ > 15\<close> converts the field to a number: a missing field gives
  \<open>NaN\<close>, and a value that is no number gives \<open>NaN\<close>, zero or one, so the test fails for both.
\<close>

definition exceeds15 :: "jsval \<Rightarrow> bool" where
  "exceeds15 v = (case v of Num n \<Rightarrow> js_lt (Fin 15) n | _ \<Rightarrow> False)"

definition obstacleStep0 :: "obstacle0 \<Rightarrow> player0 \<Rightarrow> player0" where
  "obstacleStep0 obs p =
     (if checkCollision0 p obs then
        (let p1 = p\<lparr>speed0 := js_add (speed0 p) (js_mul (gekitotsuForce0 p) (Fin (5 / 10)))\<rparr>;
             p2 = p1\<lparr>gekitotsuForce0 := Fin 0\<rparr>
         in if type_o0 obs = Box then p2\<lparr>points0 := points0 p2 + points_o0 obs\<rparr> else p2)
      else p)"

definition processInput0 :: "telemetry \<Rightarrow> player0 \<Rightarrow> player0" where
  "processInput0 d p =
     (let beta = parseFloat (tel_b d);
          gamma = parseFloat (tel_g d);
          p1 = (if exceeds15 (tel_accelerationZ d)
                then p\<lparr>gekitotsuForce0 := js_min (js_add (gekitotsuForce0 p) (Fin 1)) (Fin 10)\<rparr>
                else p);
          moveSpeed = Fin (5 / 10);
          p2 = p1\<lparr>x0 := js_add (x0 p1) (js_mul beta moveSpeed)\<rparr>;
          p3 = p2\<lparr>speed0 := js_add (Fin 2) (js_mul (gekitotsuForce0 p2) (Fin (2 / 10)))\<rparr>
      in p3\<lparr>z0 := js_sub (z0 p3) (speed0 p3)\<rparr>)"

text \<open>
  The same statements on a built-in function, lines 46 to 80: every read goes through
  \<open>num\<close>, every assignment makes the property.
\<close>

definition checkCollisionB0 :: "builtin0 \<Rightarrow> obstacle0 \<Rightarrow> bool" where
  "checkCollisionB0 f obs =
     (let distanceThreshold = Fin 30;
          dist = js_sqrt (js_add (js_pow2 (js_sub (num (x_b0 f)) (Fin (x_o0 obs))))
                                 (js_pow2 (js_sub (num (z_b0 f)) (Fin (z_o0 obs)))))
      in js_lt dist distanceThreshold)"

definition obstacleStepB0 :: "obstacle0 \<Rightarrow> builtin0 \<Rightarrow> builtin0" where
  "obstacleStepB0 obs f =
     (if checkCollisionB0 f obs then
        (let f1 = f\<lparr>speed_b0 := Some (js_add (num (speed_b0 f))
                                      (js_mul (num (gekitotsuForce_b0 f)) (Fin (5 / 10))))\<rparr>;
             f2 = f1\<lparr>gekitotsuForce_b0 := Some (Fin 0)\<rparr>
         in if type_o0 obs = Box
            then f2\<lparr>points_b0 := Some (js_add (num (points_b0 f2)) (Fin (of_int (points_o0 obs))))\<rparr>
            else f2)
      else f)"

definition processInputB0 :: "telemetry \<Rightarrow> builtin0 \<Rightarrow> builtin0" where
  "processInputB0 d f =
     (let beta = parseFloat (tel_b d);
          gamma = parseFloat (tel_g d);
          f1 = (if exceeds15 (tel_accelerationZ d)
                then f\<lparr>gekitotsuForce_b0 :=
                         Some (js_min (js_add (num (gekitotsuForce_b0 f)) (Fin 1)) (Fin 10))\<rparr>
                else f);
          moveSpeed = Fin (5 / 10);
          f2 = f1\<lparr>x_b0 := Some (js_add (num (x_b0 f1)) (js_mul beta moveSpeed))\<rparr>;
          f3 = f2\<lparr>speed_b0 :=
                     Some (js_add (Fin 2) (js_mul (num (gekitotsuForce_b0 f2)) (Fin (2 / 10))))\<rparr>
      in f3\<lparr>z_b0 := Some (js_sub (num (z_b0 f3)) (num (speed_b0 f3)))\<rparr>)"

text \<open>
  \<open>updateGameLogic\<close> of the basic variant, lines 41 to 97. The loop over the other
  players only reads them. The guard of line 43 returns when \<open>players[clientId]\<close> is
  falsy, which a member of \<open>Object.prototype\<close> is not: under the name of a built-in
  function the update runs on that function, and under \<open>__proto__\<close> it writes on
  \<open>Object.prototype\<close>, where the model stops.
\<close>

definition updateGameLogic0 :: "string \<Rightarrow> telemetry option \<Rightarrow> state0 \<Rightarrow> error + state0" where
  "updateGameLogic0 clientId data st =
     (case map_of (players0 st) clientId of
        None \<Rightarrow>
          if \<not> protoName clientId then Inr st
          else
            (case data of
               None \<Rightarrow> Inl TypeError
             | Some d \<Rightarrow>
                 if clientId = ''__proto__'' then Inl PrototypeWritten
                 else
                   Inr (st\<lparr>builtins0 := AList.update clientId
                          (fold obstacleStepB0 obstacles_table0
                             (processInputB0 d
                                (case map_of (builtins0 st) clientId of
                                   None \<Rightarrow> untouched0 | Some f \<Rightarrow> f)))
                          (builtins0 st)\<rparr>))
      | Some player \<Rightarrow>
          (case data of
             None \<Rightarrow> Inl TypeError
           | Some d \<Rightarrow>
               Inr (st\<lparr>players0 := AList.update clientId
                      (fold obstacleStep0 obstacles_table0 (processInput0 d player))
                      (players0 st)\<rparr>)))"

definition newPlayer0 :: "string \<Rightarrow> player0" where
  "newPlayer0 clientId =
     \<lparr>pid0 = clientId, x0 = Fin 0, y0 = Fin 0, z0 = Fin 0, speed0 = Fin 0,
      gekitotsuForce0 = Fin 0, points0 = 0, lap0 = 0, status0 = ''connected''\<rparr>"

definition connection0 :: "string option \<Rightarrow> state0 \<Rightarrow> string \<times> state0" where
  "connection0 query st =
     (case (case query of
              Some (c # cs) \<Rightarrow> (c # cs, st)
            | _ \<Rightarrow> (''P'' @ show_nat (nextPlayerId0 st),
                    st\<lparr>nextPlayerId0 := Suc (nextPlayerId0 st)\<rparr>)) of
        (clientId, st1) \<Rightarrow>
          (case map_of (players0 st1) clientId of
             None \<Rightarrow>
               if protoName clientId then (clientId, st1)
               else (clientId, st1\<lparr>players0 := players0 st1 @ [(clientId, newPlayer0 clientId)]\<rparr>)
           | Some _ \<Rightarrow> (clientId, st1)))"

definition initial0 :: state0 where
  "initial0 = \<lparr>players0 = [], nextPlayerId0 = 1, builtins0 = []\<rparr>"

section \<open>Notions of the properties\<close>

text \<open>Payloads used as examples: a mode selection and a telemetry sample.\<close>

definition solo :: "join_data option" where
  "solo = Some \<lparr>room = ''game'', mode_j = Some ''solo''\<rparr>"

definition multi :: "join_data option" where
  "multi = Some \<lparr>room = ''game'', mode_j = Some ''multi''\<rparr>"

definition sample :: "jsval \<Rightarrow> jsval \<Rightarrow> telemetry" where
  "sample roll accel = \<lparr>tel_b = roll, tel_g = Undefined, tel_accelerationZ = accel\<rparr>"

text \<open>A telemetry field with zero in the place of a missing or non-numeric value.\<close>

definition zeroed :: "jsval \<Rightarrow> jsval" where
  "zeroed v = (case v of Num n \<Rightarrow> Num n | _ \<Rightarrow> Num (Fin 0))"

text \<open>A finite number between two bounds.\<close>

definition in_range :: "real \<Rightarrow> real \<Rightarrow> jsnum \<Rightarrow> bool" where
  "in_range lo hi v = (case v of Fin r \<Rightarrow> lo \<le> r \<and> r \<le> hi | _ \<Rightarrow> False)"

text \<open>
  The player of an update after its obstacle pass, after its pass over the other players,
  and at its end.
\<close>

definition afterObstacles :: "state \<Rightarrow> player \<Rightarrow> player" where
  "afterObstacles st p = fst (obstaclePass 0 (obstacles st) p)"

definition afterPlayers :: "string \<Rightarrow> state \<Rightarrow> player \<Rightarrow> player" where
  "afterPlayers clientId st p =
     (if mode p = Some ''multi'' then fst (playerPass clientId (players st) p) else p)"

definition updated :: "int \<Rightarrow> string \<Rightarrow> telemetry \<Rightarrow> state \<Rightarrow> player \<Rightarrow> player" where
  "updated now clientId d st p =
     lapCheck now (afterPlayers clientId st (afterObstacles st (processInput d p)))"

text \<open>
  The fields that neither pass of an update writes: the passes change the speed, the
  charge, the points and the boost flag only.
\<close>

definition unmoved :: "player \<Rightarrow> player \<Rightarrow> bool" where
  "unmoved p q =
     (pid q = pid p \<and> x q = x p \<and> y q = y p \<and> z q = z p \<and> baseSpeed q = baseSpeed p
      \<and> lap q = lap p \<and> status q = status p \<and> mode q = mode p
      \<and> finishTime q = finishTime p \<and> totalPoints q = totalPoints p
      \<and> finalRank q = finalRank p \<and> obj q = obj p)"

text \<open>
  States used as examples: one racer, and two racers of the multiplayer mode on the start
  line. Both are reached from the initial state (\<open>race1_reached\<close>, \<open>race2_reached\<close>).
\<close>

definition racer :: "string \<Rightarrow> nat \<Rightarrow> string \<Rightarrow> player" where
  "racer k ob m = (newPlayer k ob)\<lparr>status := Playing, mode := Some m\<rparr>"

definition race1 :: state where
  "race1 = \<lparr>players = [(''P1'', racer ''P1'' 0 ''multi'')], nextPlayerId = 2,
     obstacles = obstacles_table, timers = [], nextObj = 1, builtins = []\<rparr>"

definition race2 :: state where
  "race2 = \<lparr>players = [(''P1'', racer ''P1'' 0 ''multi''), (''P2'', racer ''P2'' 1 ''multi'')],
     nextPlayerId = 3, obstacles = obstacles_table, timers = [], nextObj = 2, builtins = []\<rparr>"

text \<open>The single racer at the right edge of the track, at depth \<open>zz\<close> in lap \<open>l\<close>.\<close>

definition race1_at :: "real \<Rightarrow> int \<Rightarrow> state" where
  "race1_at zz l =
     race1\<lparr>players := [(''P1'', (racer ''P1'' 0 ''multi'')
                \<lparr>x := Fin 250, z := Fin zz, speed := Fin 3, lap := l\<rparr>)]\<rparr>"

text \<open>
  How the loop over the store may change an entry: not at all, or by charging a playing
  multiplayer entry other than the updating one.
\<close>

definition touched :: "string \<Rightarrow> string \<times> player \<Rightarrow> string \<times> player \<Rightarrow> bool" where
  "touched k e e' =
     (fst e' = fst e
      \<and> (snd e' = snd e
         \<or> (fst e \<noteq> k \<and> mode (snd e) = Some ''multi'' \<and> status (snd e) = Playing
            \<and> snd e' = charge (snd e))))"

text \<open>
  A player with the rank \<open>r\<close> among \<open>n\<close> participants: the rank is the index plus one, and
  the total adds a hundred points for each participant from this index on.
\<close>

definition ranked :: "player \<Rightarrow> int \<Rightarrow> int \<Rightarrow> player" where
  "ranked p r n = p\<lparr>finalRank := Some r, totalPoints := points p + (n - (r - 1)) * 100\<rparr>"

text \<open>The snapshot of the ranking example: two finishers and one player in its second lap.\<close>

definition playerA :: player where
  "playerA = (racer ''A'' 0 ''multi'')
     \<lparr>status := Finished, finishTime := Some 100, lap := 2, points := 10\<rparr>"

definition playerB :: player where
  "playerB = (racer ''B'' 1 ''multi'')
     \<lparr>status := Finished, finishTime := Some 50, lap := 2, points := 5\<rparr>"

definition playerC :: player where
  "playerC = (racer ''C'' 2 ''multi'')\<lparr>lap := 1, z := Fin (- 200), points := 25\<rparr>"

definition snapshot :: state where
  "snapshot = \<lparr>players = [(''A'', playerA), (''B'', playerB), (''C'', playerC)],
     nextPlayerId = 1, obstacles = obstacles_table, timers = [], nextObj = 3, builtins = []\<rparr>"

text \<open>
  Every pending reactivation is for a box of the table. This holds in every state reached
  from the initial one (\<open>timers_ok_reached\<close>).
\<close>

definition timers_ok :: "state \<Rightarrow> bool" where
  "timers_ok st =
     list_all (\<lambda>t. case t of
                  ReactivateObstacle j \<Rightarrow>
                    j < length (obstacles st) \<and> type_o (obstacles st ! j) = Box
                | ExpireBoost _ \<Rightarrow> True) (timers st)"


text \<open>
  The order of the statuses, and the events that neither join nor disconnect the
  identifier \<open>k\<close>.
\<close>

fun status_rank :: "status \<Rightarrow> nat" where
  "status_rank Lobby = 0"
| "status_rank Playing = 1"
| "status_rank Finished = 2"

fun stays :: "string \<Rightarrow> event \<Rightarrow> bool" where
  "stays k (Join k' d) = (k' \<noteq> k)"
| "stays k (Disconnect k') = (k' \<noteq> k)"
| "stays k e = True"

text \<open>
  The status under an identifier, \<open>None\<close> when the store has no player under it; and what
  one event may do to it. For a player with status \<open>s\<close> before the event: its own join
  gives playing, its own disconnect removes it, its own sample leaves \<open>s\<close> or turns
  playing into finished, and every other event leaves \<open>s\<close>. For an identifier without a
  player before the event: only a connection can give it one, in the lobby.
\<close>

definition status_in :: "state \<Rightarrow> string \<Rightarrow> status option" where
  "status_in st k = map_option status (map_of (players st) k)"

fun status_move :: "event \<Rightarrow> string \<Rightarrow> status \<Rightarrow> status option \<Rightarrow> bool" where
  "status_move (Join k' d) k s r = (if k' = k then r = Some Playing else r = Some s)"
| "status_move (Disconnect k') k s r = (if k' = k then r = None else r = Some s)"
| "status_move (Sensor now k' d) k s r =
     (if k' = k then r = Some s \<or> (s = Playing \<and> r = Some Finished) else r = Some s)"
| "status_move e k s r = (r = Some s)"

fun status_enter :: "event \<Rightarrow> status option \<Rightarrow> bool" where
  "status_enter (Connect query) r = (r = None \<or> r = Some Lobby)"
| "status_enter e r = (r = None)"

text \<open>
  A whole race of the single racer: it connects, joins and goes to the right edge of the
  track with one sample of roll 2500; then it sends samples without any field, 332
  up to the end of a lap and one more across the line, twice. \<open>finished1\<close> is the state
  at the end.
\<close>

definition idle :: event where
  "idle = Sensor 0 ''P1'' (Some (sample Undefined Undefined))"

definition race_to_finish :: "event list" where
  "race_to_finish =
     [Connect None, Join ''P1'' multi, Sensor 0 ''P1'' (Some (sample (Num (Fin 2500)) Undefined))]
     @ replicate 332 idle @ [idle] @ replicate 332 idle @ [idle]"

definition finished1 :: state where
  "finished1 =
     race1\<lparr>players := [(''P1'', (racer ''P1'' 0 ''multi'')
                \<lparr>x := Fin 250, z := Fin (- 1), speed := Fin 3, lap := 2, status := Finished,
                 finishTime := Some 0\<rparr>)]\<rparr>"

definition statuses :: "error + state \<Rightarrow> (string \<times> status) list" where
  "statuses r = (case r of Inl _ \<Rightarrow> [] | Inr st \<Rightarrow> map (\<lambda>(k, p). (k, status p)) (players st))"

section \<open>Evaluating the distance tests\<close>

text \<open>
  A square root is below a bound exactly when the bound is positive and the argument is
  below its square. This gives the three distance tests code equations without a root.
\<close>

lemma js_lt_sqrt:
  "js_lt (js_sqrt v) (Fin t) =
     (case v of Fin a \<Rightarrow> 0 \<le> a \<and> 0 < t \<and> a < t * t | _ \<Rightarrow> False)"
proof (cases v)
  case (Fin a)
  show ?thesis
  proof (cases "0 \<le> a \<and> 0 < t")
    case True
    then have "sqrt a < t \<longleftrightarrow> sqrt a < sqrt (t * t)" by simp
    also have "\<dots> \<longleftrightarrow> a < t * t" by (rule real_sqrt_less_iff)
    finally show ?thesis using Fin True by simp
  next
    case False
    then consider "a < 0" | "0 \<le> a" "t \<le> 0" by linarith
    then show ?thesis
    proof cases
      case 1
      then show ?thesis using Fin by simp
    next
      case 2
      then have "\<not> sqrt a < t" using real_sqrt_ge_zero [of a] by linarith
      then show ?thesis using Fin 2 by simp
    qed
  qed
qed simp_all

lemma checkCollision_code [code]:
  "checkCollision p obs =
     (case js_add (js_pow2 (js_sub (x p) (Fin (x_o obs))))
                  (js_pow2 (js_sub (z p) (Fin (z_o obs)))) of
        Fin a \<Rightarrow> 0 \<le> a \<and> 0 < 25 + size_o obs / 2
                 \<and> a < (25 + size_o obs / 2) * (25 + size_o obs / 2)
      | _ \<Rightarrow> False)"
  by (simp add: checkCollision_def getDistance_def js_lt_sqrt)

lemma clashes_code [code]:
  "clashes p other =
     (case js_add (js_pow2 (js_sub (x p) (x other))) (js_pow2 (js_sub (z p) (z other))) of
        Fin a \<Rightarrow> 0 \<le> a \<and> 0 < (40::real) \<and> a < 40 * 40
      | _ \<Rightarrow> False)"
  by (simp add: clashes_def getDistance_def js_lt_sqrt PLAYER_COLLISION_RADIUS_def)

lemma checkCollision0_code [code]:
  "checkCollision0 p obs =
     (case js_add (js_pow2 (js_sub (x0 p) (Fin (x_o0 obs))))
                  (js_pow2 (js_sub (z0 p) (Fin (z_o0 obs)))) of
        Fin a \<Rightarrow> 0 \<le> a \<and> 0 < (30::real) \<and> a < 30 * 30
      | _ \<Rightarrow> False)"
  by (simp add: checkCollision0_def js_lt_sqrt)

lemma checkCollisionB0_code [code]:
  "checkCollisionB0 f obs =
     (case js_add (js_pow2 (js_sub (num (x_b0 f)) (Fin (x_o0 obs))))
                  (js_pow2 (js_sub (num (z_b0 f)) (Fin (z_o0 obs)))) of
        Fin a \<Rightarrow> 0 \<le> a \<and> 0 < (30::real) \<and> a < 30 * 30
      | _ \<Rightarrow> False)"
  by (simp add: checkCollisionB0_def js_lt_sqrt)

section \<open>Looking an identifier up\<close>

lemma lookup_Own: "map_of (players st) k = Some p \<Longrightarrow> lookup st k = Own p"
  by (simp add: lookup_def)

lemma lookup_Own_iff: "lookup st k = Own p \<longleftrightarrow> map_of (players st) k = Some p"
  by (auto simp: lookup_def split: option.splits)

lemma updateGameLogic_not_own:
  assumes "map_of (players st) k = None" and "updateGameLogic now k data st = Inr st'"
  shows "st' = st"
  using assms
  by (auto simp: updateGameLogic_def lookup_def split: option.splits if_splits)

lemma sensor_cases:
  assumes "sensor now k data st = Inr st'"
  shows "st' = st \<or> updateGameLogic now k data st = Inr st'"
  using assms
  by (auto simp: sensor_def split: found.splits option.splits if_splits)

section \<open>Evaluation on concrete runs\<close>

lemmas eval_simps =
  initial_def connection_def show_nat.simps digit_def newPlayer_def join_game_def sensor_def
  disconnect_def updateGameLogic_def processInput_def charge_def parseFloat_def or_zero_def
  obstacles_table_def box_def obstacleStep_def checkCollision_code clashes_code js_sub_def
  lapCheck_def MAX_LAP_def COURSE_LENGTH_Z_def TRACK_WIDTH_X_def GEKITOTSU_CHARGE_MAX_def
  ACCEL_Z_THRESHOLD_def multi_def sample_def lookup_def protoName_def protoNames_def

lemmas eval0_simps =
  initial0_def connection0_def show_nat.simps digit_def newPlayer0_def updateGameLogic0_def
  processInput0_def parseFloat_def exceeds15_def obstacles_table0_def obstacleStep0_def
  checkCollision0_code js_sub_def sample_def protoName_def protoNames_def untouched0_def
  num_def processInputB0_def obstacleStepB0_def checkCollisionB0_code

section \<open>Updates that address nobody\<close>

text \<open>
  In \<open>server.js\<close> an update returns the state as it was, whatever the payload is, when
  \<open>players[clientId]\<close> is \<open>undefined\<close>, a built-in that no join has written on, or a
  player in the lobby or finished; so does the handler of the event.
\<close>

lemma inactive_update_is_noop:
  assumes "lookup st k = Absent \<or> lookup st k = BuiltIn None
           \<or> (\<exists>p. lookup st k = Own p \<and> (status p = Lobby \<or> status p = Finished))"
  shows "updateGameLogic now k data st = Inr st \<and> sensor now k data st = Inr st"
  using assms by (auto simp: updateGameLogic_def sensor_def)

text \<open>
  In the basic variant an update returns the state as it was when the store has no
  player under the identifier and the identifier is no name of \<open>Object.prototype\<close>.
\<close>

lemma absent_update_is_noop0:
  assumes "map_of (players0 s0) k = None" and "\<not> protoName k"
  shows "updateGameLogic0 k data s0 = Inr s0"
  using assms by (simp add: updateGameLogic0_def)

text \<open>
  C8. The claim has every update of an identifier that is absent from the store change
  nothing and raise nothing. In the basic variant the guard of line 43 tests only that
  \<open>players[clientId]\<close> is truthy, and \<open>players['toString']\<close> is a built-in function. The
  store has no player under \<open>toString\<close>, also after a connection under that identifier.
  A sample for it with an \<open>undefined\<close> payload throws; a sample without fields writes
  \<open>x\<close>, \<open>z\<close> and \<open>speed\<close>, all \<open>NaN\<close>, on the built-in. The update of \<open>server.js\<close>
  returns for the same identifier, for its guard tests the status too (line 61); it
  throws once a join has addressed the identifier.
\<close>

theorem C8_basic_variant_updates_a_builtin:
  "map_of (players0 initial0) ''toString'' = None
   \<and> snd (connection0 (Some ''toString'') initial0) = initial0
   \<and> updateGameLogic0 ''toString'' None initial0 = Inl TypeError
   \<and> updateGameLogic0 ''toString'' (Some (sample Undefined Undefined)) initial0
       = Inr (initial0\<lparr>builtins0 := [(''toString'',
                untouched0\<lparr>x_b0 := Some NaN, z_b0 := Some NaN, speed_b0 := Some NaN\<rparr>)]\<rparr>)
   \<and> updateGameLogic 0 ''toString'' None initial = Inr initial
   \<and> run initial [Connect (Some ''toString''), Join ''toString'' multi,
                   Sensor 0 ''toString'' (Some (sample Undefined Undefined))] = Inl TypeError"
  by (simp add: eval0_simps eval_simps)

section \<open>Joining\<close>

text \<open>
  What a join writes: the status, the mode, \<open>z\<close>, the lap, the points, the charge and
  the finish time. It writes neither \<open>x\<close> nor \<open>y\<close>, nor the speed, nor the boost flag.
\<close>

lemma join_game_resets:
  assumes "map_of (players st) k = Some p"
  shows "\<exists>st'. join_game k (Some d) st = Inr st'
      \<and> map_of (players st') k
          = Some (p\<lparr>status := Playing, mode := mode_j d, z := Fin 0, lap := 0, points := 0,
                    gekitotsuForce := Fin 0, finishTime := None\<rparr>)"
  using assms by (simp add: join_game_def update_conv' lookup_Own)

text \<open>
  C2. The claim has a join put the position back to its initial value, and the comment
  of line 219 says so too. The handler resets \<open>z\<close> only: a player that has
  moved sideways to \<open>x = 37\<close> and joins again is at \<open>x = 37\<close> afterwards, while a new
  player is at \<open>x = 0\<close>.
\<close>

theorem C2_join_keeps_lateral_position:
  "run initial [Connect None, Join ''P1'' solo,
                Sensor 0 ''P1'' (Some (sample (Num (Fin 370)) Undefined)), Join ''P1'' solo]
     = Inr \<lparr>players = [(''P1'', (newPlayer ''P1'' 0)
                \<lparr>x := Fin 37, speed := Fin 3, status := Playing, mode := Some ''solo''\<rparr>)],
            nextPlayerId = 2, obstacles = obstacles_table, timers = [], nextObj = 1,
            builtins = []\<rparr>"
  by (simp add: eval_simps solo_def)

section \<open>Missing telemetry fields\<close>

lemma or_zero_parseFloat_zeroed: "or_zero (parseFloat (zeroed v)) = or_zero (parseFloat v)"
  by (cases v) (simp_all add: zeroed_def parseFloat_def or_zero_def)

lemma processInput_zeroed:
  "processInput (d\<lparr>tel_b := zeroed (tel_b d), tel_g := zeroed (tel_g d),
                   tel_accelerationZ := zeroed (tel_accelerationZ d)\<rparr>) p = processInput d p"
  by (simp add: processInput_def or_zero_parseFloat_zeroed)

text \<open>
  In \<open>server.js\<close> a sample with missing or non-numeric fields updates the state exactly
  as the sample with zero in their places does.
\<close>

lemma updateGameLogic_zeroed:
  "updateGameLogic now k (Some (d\<lparr>tel_b := zeroed (tel_b d), tel_g := zeroed (tel_g d),
                   tel_accelerationZ := zeroed (tel_accelerationZ d)\<rparr>)) st
   = updateGameLogic now k (Some d) st"
  by (simp add: updateGameLogic_def processInput_zeroed split: found.split option.split)

text \<open>
  C9. The basic variant reads the roll with \<open>parseFloat\<close> alone (line 46), without the
  \<open>|| 0\<close> of \<open>server.js\<close> (line 64). For a new player and a sample without \<open>b\<close> the
  update ends with \<open>x = NaN\<close>; the sample with zero in its place leaves \<open>x = 0\<close>.
\<close>

theorem C9_basic_variant_missing_roll_gives_NaN:
  "updateGameLogic0 ''P1'' (Some (sample Undefined Undefined)) (snd (connection0 None initial0))
     = Inr \<lparr>players0 = [(''P1'', (newPlayer0 ''P1'')
                \<lparr>x0 := NaN, z0 := Fin (- 2), speed0 := Fin 2\<rparr>)],
            nextPlayerId0 = 2, builtins0 = []\<rparr>
   \<and> updateGameLogic0 ''P1'' (Some (sample (Num (Fin 0)) (Num (Fin 0))))
        (snd (connection0 None initial0))
     = Inr \<lparr>players0 = [(''P1'', (newPlayer0 ''P1'')
                \<lparr>x0 := Fin 0, z0 := Fin (- 2), speed0 := Fin 2\<rparr>)],
            nextPlayerId0 = 2, builtins0 = []\<rparr>"
  by (simp add: eval0_simps)

section \<open>What the passes of an update leave alone\<close>

lemma unmoved_refl: "unmoved p p"
  by (simp add: unmoved_def)

lemma unmoved_trans: "unmoved p q \<Longrightarrow> unmoved q r \<Longrightarrow> unmoved p r"
  by (simp add: unmoved_def)

lemma obstacleStep_unmoved: "unmoved p (fst (obstacleStep i obs p))"
  by (simp add: obstacleStep_def unmoved_def Let_def)

lemma obstaclePass_unmoved: "unmoved p (fst (obstaclePass i obss p))"
proof (induction obss arbitrary: i p)
  case Nil
  show ?case by (simp add: unmoved_refl)
next
  case (Cons obs rest)
  obtain p1 obs1 ts1 where s: "obstacleStep i obs p = (p1, obs1, ts1)"
    by (cases "obstacleStep i obs p") auto
  obtain p2 rest2 ts2 where r: "obstaclePass (Suc i) rest p1 = (p2, rest2, ts2)"
    by (cases "obstaclePass (Suc i) rest p1") auto
  have "unmoved p p1" using obstacleStep_unmoved [of p i obs] s by simp
  moreover have "unmoved p1 p2" using Cons.IH [of p1 "Suc i"] r by simp
  ultimately show ?case using s r by (simp add: unmoved_trans)
qed

lemma in_range_charge:
  "in_range 0 GEKITOTSU_CHARGE_MAX (gekitotsuForce p)
   \<Longrightarrow> in_range 0 GEKITOTSU_CHARGE_MAX (gekitotsuForce (charge p))"
  by (cases "gekitotsuForce p") (auto simp: in_range_def charge_def GEKITOTSU_CHARGE_MAX_def)

lemma obstacleStep_charge:
  "in_range 0 GEKITOTSU_CHARGE_MAX (gekitotsuForce p)
   \<Longrightarrow> in_range 0 GEKITOTSU_CHARGE_MAX (gekitotsuForce (fst (obstacleStep i obs p)))"
  by (simp add: obstacleStep_def Let_def in_range_def GEKITOTSU_CHARGE_MAX_def)

lemma obstaclePass_charge:
  "in_range 0 GEKITOTSU_CHARGE_MAX (gekitotsuForce p)
   \<Longrightarrow> in_range 0 GEKITOTSU_CHARGE_MAX (gekitotsuForce (fst (obstaclePass i obss p)))"
proof (induction obss arbitrary: i p)
  case Nil
  then show ?case by simp
next
  case (Cons obs rest)
  obtain p1 obs1 ts1 where s: "obstacleStep i obs p = (p1, obs1, ts1)"
    by (cases "obstacleStep i obs p") auto
  obtain p2 rest2 ts2 where r: "obstaclePass (Suc i) rest p1 = (p2, rest2, ts2)"
    by (cases "obstaclePass (Suc i) rest p1") auto
  have "in_range 0 GEKITOTSU_CHARGE_MAX (gekitotsuForce p1)"
    using obstacleStep_charge [OF Cons.prems, of i obs] s by simp
  then have "in_range 0 GEKITOTSU_CHARGE_MAX (gekitotsuForce p2)"
    using Cons.IH [of p1 "Suc i"] r by simp
  then show ?case using s r by simp
qed

lemma playerPass_unmoved: "unmoved p (fst (playerPass k s p))"
proof (induction s arbitrary: p)
  case Nil
  show ?case by (simp add: unmoved_refl)
next
  case (Cons e rest)
  obtain otherId otherPlayer where e: "e = (otherId, otherPlayer)" by (cases e)
  let ?p2 = "(charge p)\<lparr>speed := js_max (Fin 1) (js_mul (speed (charge p)) (Fin (8 / 10)))\<rparr>"
  have a: "unmoved p ?p2" by (simp add: unmoved_def charge_def)
  show ?case
    using Cons.IH [of p] Cons.IH [of ?p2] a
    by (auto simp: e Let_def split: prod.splits intro: unmoved_trans)
qed

lemma playerPass_charge:
  "in_range 0 GEKITOTSU_CHARGE_MAX (gekitotsuForce p)
   \<Longrightarrow> in_range 0 GEKITOTSU_CHARGE_MAX (gekitotsuForce (fst (playerPass k s p)))"
proof (induction s arbitrary: p)
  case Nil
  then show ?case by simp
next
  case (Cons e rest)
  obtain otherId otherPlayer where e: "e = (otherId, otherPlayer)" by (cases e)
  let ?p2 = "(charge p)\<lparr>speed := js_max (Fin 1) (js_mul (speed (charge p)) (Fin (8 / 10)))\<rparr>"
  have a: "in_range 0 GEKITOTSU_CHARGE_MAX (gekitotsuForce ?p2)"
    using in_range_charge [OF Cons.prems] by simp
  show ?case
    using Cons.IH [OF Cons.prems] Cons.IH [OF a]
    by (auto simp: e Let_def split: prod.splits)
qed

lemma or_zero_not_NaN: "or_zero v \<noteq> NaN"
  by (cases v) (simp_all add: or_zero_def)

lemma clamp_in_range:
  "v \<noteq> NaN \<Longrightarrow> lo \<le> hi \<Longrightarrow> in_range lo hi (js_max (Fin lo) (js_min (Fin hi) v))"
  by (cases v) (auto simp: in_range_def)

lemma processInput_x:
  assumes "x p \<noteq> PInf" "x p \<noteq> NInf" "x p \<noteq> NaN"
  shows "in_range (- TRACK_WIDTH_X) TRACK_WIDTH_X (x (processInput d p))"
proof -
  obtain v where v: "x p = Fin v" using assms by (cases "x p") auto
  let ?beta = "or_zero (parseFloat (tel_b d))"
  have "js_mul (js_mul ?beta (Fin 1)) (Fin (1 / 10)) \<noteq> NaN"
    using or_zero_not_NaN [of "parseFloat (tel_b d)"] by (cases ?beta) auto
  then have "js_add (Fin v) (js_mul (js_mul ?beta (Fin 1)) (Fin (1 / 10))) \<noteq> NaN"
    by (cases "js_mul (js_mul ?beta (Fin 1)) (Fin (1 / 10))") auto
  then show ?thesis
    by (simp add: processInput_def Let_def v charge_def clamp_in_range TRACK_WIDTH_X_def)
qed

lemma processInput_charge:
  "in_range 0 GEKITOTSU_CHARGE_MAX (gekitotsuForce p)
   \<Longrightarrow> in_range 0 GEKITOTSU_CHARGE_MAX (gekitotsuForce (processInput d p))"
  using in_range_charge [of p] by (simp add: processInput_def Let_def)

lemma lapCheck_keeps:
  "x (lapCheck now p) = x p" "gekitotsuForce (lapCheck now p) = gekitotsuForce p"
  "speed (lapCheck now p) = speed p" "points (lapCheck now p) = points p"
  "mode (lapCheck now p) = mode p" "speed_x2_active (lapCheck now p) = speed_x2_active p"
  by (simp_all add: lapCheck_def Let_def)

lemma updateGameLogic_playing:
  assumes "map_of (players st) k = Some p" "status p = Playing"
  shows "\<exists>st'. updateGameLogic now k (Some d) st = Inr st'
          \<and> map_of (players st') k = Some (updated now k d st p)"
  using assms
  by (simp add: updateGameLogic_def lookup_Own updated_def afterPlayers_def afterObstacles_def
      Let_def update_conv' split: prod.splits)

lemma race1_reached: "run initial [Connect None, Join ''P1'' multi] = Inr race1"
  by (simp add: eval_simps race1_def racer_def)

lemma race2_reached:
  "run initial [Connect None, Connect None, Join ''P1'' multi, Join ''P2'' multi] = Inr race2"
  by (simp add: eval_simps race2_def racer_def)

section \<open>Bounds of the charge and of the lateral position\<close>

text \<open>
  C3. Take a player of the store whose charge is in \<open>[0, GEKITOTSU_CHARGE_MAX]\<close> and whose
  \<open>x\<close> is in \<open>[-TRACK_WIDTH_X, TRACK_WIDTH_X]\<close>. For every telemetry sample (any roll,
  pitch and acceleration, also missing, non-numeric or infinite) the update returns a
  state, and in it the charge and \<open>x\<close> of the player are within the same bounds.
\<close>

theorem C3_charge_and_x_stay_in_range:
  assumes "map_of (players st) k = Some p"
    and "in_range 0 GEKITOTSU_CHARGE_MAX (gekitotsuForce p)"
    and "in_range (- TRACK_WIDTH_X) TRACK_WIDTH_X (x p)"
  shows "\<exists>st' p'. updateGameLogic now k (Some d) st = Inr st'
           \<and> map_of (players st') k = Some p'
           \<and> in_range 0 GEKITOTSU_CHARGE_MAX (gekitotsuForce p')
           \<and> in_range (- TRACK_WIDTH_X) TRACK_WIDTH_X (x p')"
proof (cases "status p = Playing")
  case False
  then have "updateGameLogic now k (Some d) st = Inr st"
    using assms(1) by (simp add: updateGameLogic_def lookup_Own)
  then show ?thesis using assms by simp
next
  case True
  let ?p1 = "processInput d p"
  let ?p2 = "afterObstacles st ?p1"
  let ?p3 = "afterPlayers k st ?p2"
  have fin: "x p \<noteq> PInf" "x p \<noteq> NInf" "x p \<noteq> NaN"
    using assms(3) by (auto simp: in_range_def)
  have c1: "in_range 0 GEKITOTSU_CHARGE_MAX (gekitotsuForce ?p1)"
    by (rule processInput_charge [OF assms(2)])
  have c2: "in_range 0 GEKITOTSU_CHARGE_MAX (gekitotsuForce ?p2)"
    unfolding afterObstacles_def by (rule obstaclePass_charge [OF c1])
  have c3: "in_range 0 GEKITOTSU_CHARGE_MAX (gekitotsuForce ?p3)"
    using c2 playerPass_charge [OF c2] by (simp add: afterPlayers_def)
  have x1: "in_range (- TRACK_WIDTH_X) TRACK_WIDTH_X (x ?p1)"
    by (rule processInput_x [OF fin])
  have "unmoved ?p1 ?p2"
    unfolding afterObstacles_def by (rule obstaclePass_unmoved)
  moreover have "unmoved ?p2 ?p3"
    by (simp add: afterPlayers_def playerPass_unmoved unmoved_refl)
  ultimately have x3: "x ?p3 = x ?p1" by (simp add: unmoved_def)
  obtain st' where st': "updateGameLogic now k (Some d) st = Inr st'"
      "map_of (players st') k = Some (updated now k d st p)"
    using updateGameLogic_playing [OF assms(1) True] by blast
  have "in_range 0 GEKITOTSU_CHARGE_MAX (gekitotsuForce (updated now k d st p))"
    using c3 by (simp add: updated_def lapCheck_keeps)
  moreover have "in_range (- TRACK_WIDTH_X) TRACK_WIDTH_X (x (updated now k d st p))"
    using x1 x3 by (simp add: updated_def lapCheck_keeps)
  ultimately show ?thesis using st' by blast
qed

theorem C3_charge_and_x_stay_in_range_witness:
  "\<exists>st' p'. updateGameLogic 0 ''P1'' (Some (sample (Num PInf) (Num (Fin 25)))) race1 = Inr st'
           \<and> map_of (players st') ''P1'' = Some p'
           \<and> in_range 0 GEKITOTSU_CHARGE_MAX (gekitotsuForce p')
           \<and> in_range (- TRACK_WIDTH_X) TRACK_WIDTH_X (x p')"
proof -
  have h1: "map_of (players race1) ''P1'' = Some (racer ''P1'' 0 ''multi'')"
    by (simp add: race1_def)
  have h2: "in_range 0 GEKITOTSU_CHARGE_MAX (gekitotsuForce (racer ''P1'' 0 ''multi''))"
    by (simp add: racer_def newPlayer_def in_range_def GEKITOTSU_CHARGE_MAX_def)
  have h3: "in_range (- TRACK_WIDTH_X) TRACK_WIDTH_X (x (racer ''P1'' 0 ''multi''))"
    by (simp add: racer_def newPlayer_def in_range_def TRACK_WIDTH_X_def)
  show ?thesis by (rule C3_charge_and_x_stay_in_range [OF h1 h2 h3])
qed

section \<open>Speed, advance and laps\<close>

lemma passes_unmoved:
  "unmoved p1 (afterPlayers k st (afterObstacles st p1))"
proof -
  have "unmoved p1 (afterObstacles st p1)"
    unfolding afterObstacles_def by (rule obstaclePass_unmoved)
  moreover have "unmoved (afterObstacles st p1) (afterPlayers k st (afterObstacles st p1))"
    by (simp add: afterPlayers_def playerPass_unmoved unmoved_refl)
  ultimately show ?thesis by (rule unmoved_trans)
qed

lemma updated_z_lap:
  "z (updated now k d st p) =
     (if js_lt (z (processInput d p)) (Fin (- COURSE_LENGTH_Z))
      then js_add (z (processInput d p)) (Fin COURSE_LENGTH_Z) else z (processInput d p))"
  "lap (updated now k d st p) =
     (if js_lt (z (processInput d p)) (Fin (- COURSE_LENGTH_Z))
      then lap (processInput d p) + 1 else lap (processInput d p))"
  "baseSpeed (updated now k d st p) = baseSpeed (processInput d p)"
  using passes_unmoved [of "processInput d p" k st]
  by (simp_all add: updated_def lapCheck_def Let_def unmoved_def)

lemma processInput_fields:
  "baseSpeed (processInput d p) = Fin 3"
  "speed (processInput d p) =
     (if speed_x2_active p then Fin (3 * 2)
      else js_add (Fin 3) (js_mul (gekitotsuForce (processInput d p)) (Fin (2 / 10))))"
  "z (processInput d p) = js_sub (z p) (speed (processInput d p))"
  "lap (processInput d p) = lap p"
  "gekitotsuForce (processInput d p) =
     (if js_lt (Fin ACCEL_Z_THRESHOLD) (js_abs (or_zero (parseFloat (tel_accelerationZ d))))
      then js_min (js_add (gekitotsuForce p) (Fin 2)) (Fin GEKITOTSU_CHARGE_MAX)
      else gekitotsuForce p)"
  by (simp_all add: processInput_def Let_def charge_def)

text \<open>
  C4. For a playing player the update sets the base speed to 3 and computes the speed from
  it: twice the base speed while the boost is active, with no term of the charge, and
  otherwise the base speed plus the charge (as it is after this sample has charged it)
  times \<open>0.2\<close>. Then it subtracts that speed from \<open>z\<close>; the \<open>z\<close> of the player at the
  end of the update is this value, wrapped by the lap check.
\<close>

theorem C4_speed_then_advance:
  assumes "map_of (players st) k = Some p" and "status p = Playing"
  shows "\<exists>st' p'. updateGameLogic now k (Some d) st = Inr st'
           \<and> map_of (players st') k = Some p'
           \<and> baseSpeed (processInput d p) = Fin 3
           \<and> speed (processInput d p) =
               (if speed_x2_active p then Fin (3 * 2)
                else js_add (Fin 3) (js_mul (gekitotsuForce (processInput d p)) (Fin (2 / 10))))
           \<and> z (processInput d p) = js_sub (z p) (speed (processInput d p))
           \<and> z p' = (if js_lt (z (processInput d p)) (Fin (- COURSE_LENGTH_Z))
                     then js_add (z (processInput d p)) (Fin COURSE_LENGTH_Z)
                     else z (processInput d p))"
proof -
  obtain st' where st': "updateGameLogic now k (Some d) st = Inr st'"
      "map_of (players st') k = Some (updated now k d st p)"
    using updateGameLogic_playing [OF assms] by blast
  show ?thesis
    using st' processInput_fields(1,2,3) [of d p] updated_z_lap(1) [of now k d st p] by blast
qed

theorem C4_speed_then_advance_witness:
  "\<exists>st' p'. updateGameLogic 0 ''P1'' (Some (sample (Num (Fin 0)) (Num (Fin 25)))) race1 = Inr st'
           \<and> map_of (players st') ''P1'' = Some p'
           \<and> speed (processInput (sample (Num (Fin 0)) (Num (Fin 25))) (racer ''P1'' 0 ''multi''))
               = Fin (17 / 5)
           \<and> z p' = Fin (- (17 / 5))"
proof -
  have h1: "map_of (players race1) ''P1'' = Some (racer ''P1'' 0 ''multi'')"
    by (simp add: race1_def)
  have h2: "status (racer ''P1'' 0 ''multi'') = Playing"
    by (simp add: racer_def)
  show ?thesis
    using C4_speed_then_advance [OF h1 h2, of 0 "sample (Num (Fin 0)) (Num (Fin 25))"]
    by (simp add: eval_simps race1_def racer_def)
qed

text \<open>
  C5. For a playing player, when the \<open>z\<close> reached by the advance is below
  \<open>-COURSE_LENGTH_Z\<close> the update adds one to the lap and \<open>COURSE_LENGTH_Z\<close> to that \<open>z\<close>
  (the overshoot is kept); otherwise the lap is unchanged and \<open>z\<close> is the value reached.
\<close>

theorem C5_lap_wraps:
  assumes "map_of (players st) k = Some p" and "status p = Playing"
  shows "\<exists>st' p'. updateGameLogic now k (Some d) st = Inr st'
           \<and> map_of (players st') k = Some p'
           \<and> (if js_lt (js_sub (z p) (speed (processInput d p))) (Fin (- COURSE_LENGTH_Z))
              then lap p' = lap p + 1
                   \<and> z p' = js_add (js_sub (z p) (speed (processInput d p))) (Fin COURSE_LENGTH_Z)
              else lap p' = lap p \<and> z p' = js_sub (z p) (speed (processInput d p)))"
proof -
  obtain st' where st': "updateGameLogic now k (Some d) st = Inr st'"
      "map_of (players st') k = Some (updated now k d st p)"
    using updateGameLogic_playing [OF assms] by blast
  have "if js_lt (js_sub (z p) (speed (processInput d p))) (Fin (- COURSE_LENGTH_Z))
        then lap (updated now k d st p) = lap p + 1
             \<and> z (updated now k d st p)
                 = js_add (js_sub (z p) (speed (processInput d p))) (Fin COURSE_LENGTH_Z)
        else lap (updated now k d st p) = lap p
             \<and> z (updated now k d st p) = js_sub (z p) (speed (processInput d p))"
    using processInput_fields(3,4) [of d p] by (simp add: updated_z_lap)
  then show ?thesis using st' by blast
qed

theorem C5_lap_wraps_witness:
  "\<exists>st' p'. updateGameLogic 0 ''P1'' (Some (sample (Num (Fin 0)) Undefined)) (race1_at (- 999) 0)
               = Inr st'
           \<and> map_of (players st') ''P1'' = Some p'
           \<and> lap p' = 1 \<and> z p' = Fin (- 2)"
proof -
  have h1: "map_of (players (race1_at (- 999) 0)) ''P1''
      = Some ((racer ''P1'' 0 ''multi'')\<lparr>x := Fin 250, z := Fin (- 999), speed := Fin 3, lap := 0\<rparr>)"
    by (simp add: race1_at_def)
  have h2: "status ((racer ''P1'' 0 ''multi'')
      \<lparr>x := Fin 250, z := Fin (- 999), speed := Fin 3, lap := 0\<rparr>) = Playing"
    by (simp add: racer_def)
  show ?thesis
    using C5_lap_wraps [OF h1 h2, of 0 "sample (Num (Fin 0)) Undefined"]
    by (simp add: eval_simps race1_def race1_at_def racer_def)
qed

section \<open>The other players during an update\<close>

lemma playerPass_others: "list_all2 (touched k) s (snd (playerPass k s p))"
proof (induction s arbitrary: p)
  case Nil
  show ?case by simp
next
  case (Cons e rest)
  obtain otherId otherPlayer where e: "e = (otherId, otherPlayer)" by (cases e)
  let ?p2 = "(charge p)\<lparr>speed := js_max (Fin 1) (js_mul (speed (charge p)) (Fin (8 / 10)))\<rparr>"
  show ?case
    using Cons.IH [of p] Cons.IH [of ?p2]
    by (auto simp: e Let_def touched_def split: prod.splits)
qed

lemma touched_map_of:
  assumes "list_all2 (touched k) s s'"
  shows "case map_of s k' of
           None \<Rightarrow> map_of s' k' = None
         | Some q \<Rightarrow> \<exists>q'. map_of s' k' = Some q' \<and> touched k (k', q) (k', q')"
  using assms
proof (induction rule: list_all2_induct)
  case Nil
  show ?case by simp
next
  case (Cons e es e' es')
  then show ?case
    by (cases e; cases e') (auto simp: touched_def split: option.splits)
qed

lemma updateGameLogic_cases:
  assumes "updateGameLogic now k data st = Inr st'"
  shows "st' = st
     \<or> (\<exists>p d. map_of (players st) k = Some p \<and> status p = Playing \<and> data = Some d
         \<and> players st' = AList.update k (updated now k d st p)
              (if mode p = Some ''multi''
               then snd (playerPass k (players st) (afterObstacles st (processInput d p)))
               else players st))"
proof (cases "map_of (players st) k")
  case None
  then show ?thesis using updateGameLogic_not_own [OF _ assms] by simp
next
  case (Some p)
  show ?thesis
  proof (cases "status p = Playing")
    case False
    then show ?thesis using assms Some by (simp add: updateGameLogic_def lookup_Own)
  next
    case True
    then obtain d where d: "data = Some d"
      using assms Some by (cases data) (simp_all add: updateGameLogic_def lookup_Own)
    have m: "mode (afterObstacles st (processInput d p)) = mode p"
      using obstaclePass_unmoved [of "processInput d p" 0 "obstacles st"]
      by (simp add: afterObstacles_def unmoved_def processInput_def Let_def charge_def)
    have "players st' = AList.update k (updated now k d st p)
              (if mode p = Some ''multi''
               then snd (playerPass k (players st) (afterObstacles st (processInput d p)))
               else players st)"
      using assms Some True d m
      by (auto simp: updateGameLogic_def lookup_Own updated_def afterPlayers_def
          afterObstacles_def Let_def
          split: prod.splits if_splits)
    then show ?thesis using Some True d by blast
  qed
qed

lemma updateGameLogic_others:
  assumes "updateGameLogic now k data st = Inr st'" and "k' \<noteq> k"
  shows "case map_of (players st) k' of
           None \<Rightarrow> map_of (players st') k' = None
         | Some q \<Rightarrow>
             \<exists>q'. map_of (players st') k' = Some q'
               \<and> (q' = q
                  \<or> (q' = q\<lparr>gekitotsuForce :=
                              js_min (js_add (gekitotsuForce q) (Fin 2)) (Fin GEKITOTSU_CHARGE_MAX)\<rparr>
                     \<and> mode q = Some ''multi'' \<and> status q = Playing
                     \<and> (\<exists>p. map_of (players st) k = Some p \<and> mode p = Some ''multi''
                             \<and> status p = Playing)))"
proof -
  from updateGameLogic_cases [OF assms(1)]
  consider "st' = st"
    | p d where "map_of (players st) k = Some p" "mode p \<noteq> Some ''multi''"
        "players st' = AList.update k (updated now k d st p) (players st)"
    | p d where "map_of (players st) k = Some p" "mode p = Some ''multi''" "status p = Playing"
        "players st' = AList.update k (updated now k d st p)
           (snd (playerPass k (players st) (afterObstacles st (processInput d p))))"
    by (auto split: if_splits)
  then show ?thesis
  proof cases
    case 1
    then show ?thesis by (simp split: option.splits)
  next
    case 2
    then show ?thesis using assms(2) by (simp add: update_conv' split: option.splits)
  next
    case 3
    let ?s' = "snd (playerPass k (players st) (afterObstacles st (processInput d p)))"
    have "map_of (players st') k' = map_of ?s' k'"
      using 3 assms(2) by (simp add: update_conv')
    then show ?thesis
      using touched_map_of [OF playerPass_others
              [of k "players st" "afterObstacles st (processInput d p)"], where k' = k'] 3(1,2,3)
      by (auto simp: touched_def charge_def split: option.splits)
  qed
qed

text \<open>
  C10. An update of the player \<open>k\<close> that returns leaves the store without \<open>k'\<close> if it was
  without it, and every other player \<open>k'\<close> either exactly as it was or with its charge
  raised by two (capped) and nothing else changed; the latter only when that player has
  the mode \<open>multi\<close> and is playing and the updating player has the mode \<open>multi\<close> (and is
  playing).
\<close>

theorem C10_update_touches_only_charge_of_others:
  assumes "updateGameLogic now k data st = Inr st'" and "k' \<noteq> k"
  shows "case map_of (players st) k' of
           None \<Rightarrow> map_of (players st') k' = None
         | Some q \<Rightarrow>
             \<exists>q'. map_of (players st') k' = Some q'
               \<and> (q' = q
                  \<or> (q' = q\<lparr>gekitotsuForce :=
                              js_min (js_add (gekitotsuForce q) (Fin 2)) (Fin GEKITOTSU_CHARGE_MAX)\<rparr>
                     \<and> mode q = Some ''multi'' \<and> status q = Playing
                     \<and> (\<exists>p. map_of (players st) k = Some p \<and> mode p = Some ''multi''
                             \<and> status p = Playing)))"
  using assms by (rule updateGameLogic_others)

theorem C10_update_touches_only_charge_of_others_witness:
  "\<exists>q'. map_of (players (race2\<lparr>players :=
             [(''P1'', (racer ''P1'' 0 ''multi'')
                 \<lparr>z := Fin (- 3), speed := Fin (12 / 5), gekitotsuForce := Fin 2\<rparr>),
              (''P2'', (racer ''P2'' 1 ''multi'')\<lparr>gekitotsuForce := Fin 2\<rparr>)]\<rparr>)) ''P2'' = Some q'
      \<and> (q' = racer ''P2'' 1 ''multi''
         \<or> (q' = (racer ''P2'' 1 ''multi'')\<lparr>gekitotsuForce := Fin 2\<rparr>
            \<and> mode (racer ''P2'' 1 ''multi'') = Some ''multi''
            \<and> status (racer ''P2'' 1 ''multi'') = Playing))"
proof -
  have h1: "updateGameLogic 0 ''P1'' (Some (sample (Num (Fin 0)) Undefined)) race2
      = Inr (race2\<lparr>players :=
             [(''P1'', (racer ''P1'' 0 ''multi'')
                 \<lparr>z := Fin (- 3), speed := Fin (12 / 5), gekitotsuForce := Fin 2\<rparr>),
              (''P2'', (racer ''P2'' 1 ''multi'')\<lparr>gekitotsuForce := Fin 2\<rparr>)]\<rparr>)"
    by (simp add: eval_simps race2_def racer_def)
  have h2: "''P2'' \<noteq> ''P1''" by simp
  show ?thesis
    using C10_update_touches_only_charge_of_others [OF h1 h2]
    by (simp add: race2_def racer_def newPlayer_def GEKITOTSU_CHARGE_MAX_def)
qed

section \<open>Ranking of three players\<close>

lemma fst_calculateRanking:
  "fst (calculateRanking st) =
     (let sorted = sortBy compareRank (filter active (map snd (players st)))
      in assignRanks (length sorted) 0 sorted)"
  by (simp add: calculateRanking_def Let_def)

text \<open>
  C7. The store holds exactly three players, in any order, all of the mode \<open>multi\<close>: \<open>A\<close>
  finished at time 100, \<open>B\<close> finished at time 50, and \<open>C\<close> playing in lap 1 at
  \<open>z = -200\<close>. Then the ranking is \<open>B\<close>, \<open>A\<close>, \<open>C\<close> with the final ranks 1, 2, 3, and the
  total of each is its points plus \<open>(3 - index) * 100\<close>.
\<close>

theorem C7_ranking_of_three:
  assumes modes: "mode A = Some ''multi''" "mode B = Some ''multi''" "mode C = Some ''multi''"
    and A: "status A = Finished" "finishTime A = Some 100"
    and B: "status B = Finished" "finishTime B = Some 50"
    and C: "status C = Playing" "lap C = 1" "z C = Fin (- 200)"
    and order: "map snd (players st) \<in>
                  {[A, B, C], [A, C, B], [B, A, C], [B, C, A], [C, A, B], [C, B, A]}"
  shows "fst (calculateRanking st) = [ranked B 1 3, ranked A 2 3, ranked C 3 3]"
proof -
  have cmp: "compareRank A B = Fin 50" "compareRank B A = Fin (- 50)"
    "compareRank A C = Fin (- 1)" "compareRank B C = Fin (- 1)"
    "compareRank C A = Fin 1" "compareRank C B = Fin 1"
    using A B C by (simp_all add: compareRank_def timeNum_def js_sub_def)
  have act: "active A" "active B" "active C"
    using modes A B C by (simp_all add: active_def)
  have srt: "sortBy compareRank (filter active (map snd (players st))) = [B, A, C]"
  proof -
    from order consider "map snd (players st) = [A, B, C]" | "map snd (players st) = [A, C, B]"
      | "map snd (players st) = [B, A, C]" | "map snd (players st) = [B, C, A]"
      | "map snd (players st) = [C, A, B]" | "map snd (players st) = [C, B, A]"
      by blast
    then show ?thesis
    proof cases
      case 1 show ?thesis unfolding 1 by (simp add: sortBy_def cmp act)
    next
      case 2 show ?thesis unfolding 2 by (simp add: sortBy_def cmp act)
    next
      case 3 show ?thesis unfolding 3 by (simp add: sortBy_def cmp act)
    next
      case 4 show ?thesis unfolding 4 by (simp add: sortBy_def cmp act)
    next
      case 5 show ?thesis unfolding 5 by (simp add: sortBy_def cmp act)
    next
      case 6 show ?thesis unfolding 6 by (simp add: sortBy_def cmp act)
    qed
  qed
  show ?thesis
    unfolding fst_calculateRanking srt by (simp add: ranked_def)
qed

theorem C7_ranking_of_three_witness:
  "fst (calculateRanking snapshot) = [ranked playerB 1 3, ranked playerA 2 3, ranked playerC 3 3]
   \<and> map totalPoints (fst (calculateRanking snapshot)) = [305, 210, 125]"
proof -
  have r: "fst (calculateRanking snapshot)
      = [ranked playerB 1 3, ranked playerA 2 3, ranked playerC 3 3]"
    by (rule C7_ranking_of_three [of playerA playerB playerC])
       (simp_all add: playerA_def playerB_def playerC_def racer_def newPlayer_def snapshot_def)
  show ?thesis
    unfolding r by (simp add: ranked_def playerA_def playerB_def playerC_def)
qed

text \<open>The objects of the store carry the ranks as well.\<close>

lemma calculateRanking_snapshot_store:
  "players (snd (calculateRanking snapshot))
     = [(''A'', ranked playerA 2 3), (''B'', ranked playerB 1 3), (''C'', ranked playerC 3 3)]"
  by (simp add: calculateRanking_def writeBack_def Let_def sortBy_def snapshot_def active_def
      compareRank_def timeNum_def js_sub_def playerA_def playerB_def playerC_def racer_def
      newPlayer_def ranked_def)

section \<open>Obstacles that have been hit\<close>


lemma obstacleStep_type: "type_o (fst (snd (obstacleStep i obs p))) = type_o obs"
  by (simp add: obstacleStep_def Let_def)

lemma obstacleStep_tasks:
  "ReactivateObstacle j \<in> set (snd (snd (obstacleStep i obs p)))
   \<Longrightarrow> j = i \<and> type_o obs = Box \<and> \<not> collided obs"
  by (simp add: obstacleStep_def Let_def split: if_splits)

lemma obstaclePass_Cons:
  "obstaclePass i (obs # rest) p =
     (let s = obstacleStep i obs p; r = obstaclePass (Suc i) rest (fst s)
      in (fst r, fst (snd s) # fst (snd r), snd (snd s) @ snd (snd r)))"
  by (simp add: Let_def split: prod.splits)

lemma obstaclePass_length: "length (fst (snd (obstaclePass i obss p))) = length obss"
  by (induction obss arbitrary: i p) (simp_all add: obstaclePass_Cons Let_def del: obstaclePass.simps(2))

lemma obstaclePass_types: "map type_o (fst (snd (obstaclePass i obss p))) = map type_o obss"
  by (induction obss arbitrary: i p)
     (simp_all add: obstaclePass_Cons Let_def obstacleStep_type del: obstaclePass.simps(2))


lemma obstaclePass_tasks:
  "ReactivateObstacle j \<in> set (snd (snd (obstaclePass i obss p)))
   \<Longrightarrow> i \<le> j \<and> j - i < length obss \<and> type_o (obss ! (j - i)) = Box
       \<and> \<not> collided (obss ! (j - i))"
proof (induction obss arbitrary: i p)
  case Nil
  then show ?case by simp
next
  case (Cons obs rest)
  obtain p1 obs1 ts1 where s: "obstacleStep i obs p = (p1, obs1, ts1)"
    by (cases "obstacleStep i obs p") auto
  obtain p2 rest2 ts2 where r: "obstaclePass (Suc i) rest p1 = (p2, rest2, ts2)"
    by (cases "obstaclePass (Suc i) rest p1") auto
  from Cons.prems s r have "ReactivateObstacle j \<in> set ts1 \<or> ReactivateObstacle j \<in> set ts2"
    by simp
  then show ?case
  proof
    assume "ReactivateObstacle j \<in> set ts1"
    then show ?thesis using obstacleStep_tasks [of j i obs p] s by simp
  next
    assume "ReactivateObstacle j \<in> set ts2"
    then have "Suc i \<le> j \<and> j - Suc i < length rest \<and> type_o (rest ! (j - Suc i)) = Box
       \<and> \<not> collided (rest ! (j - Suc i))"
      using Cons.IH [of "Suc i" p1] r by simp
    moreover from this have "j - i = Suc (j - Suc i)" by linarith
    ultimately show ?thesis by simp
  qed
qed

lemma updateGameLogic_obstacles:
  assumes "updateGameLogic now k data st = Inr st'"
  shows "st' = st
    \<or> (\<exists>p1. obstacles st' = fst (snd (obstaclePass 0 (obstacles st) p1))
           \<and> timers st' = timers st @ snd (snd (obstaclePass 0 (obstacles st) p1)))"
proof (cases "map_of (players st) k")
  case None
  then show ?thesis using updateGameLogic_not_own [OF _ assms] by simp
next
  case (Some p)
  show ?thesis
  proof (cases "status p = Playing")
    case False
    then show ?thesis using assms Some by (simp add: updateGameLogic_def lookup_Own)
  next
    case True
    then obtain d where d: "data = Some d"
      using assms Some by (cases data) (simp_all add: updateGameLogic_def lookup_Own)
    have "obstacles st' = fst (snd (obstaclePass 0 (obstacles st) (processInput d p)))
        \<and> timers st' = timers st @ snd (snd (obstaclePass 0 (obstacles st) (processInput d p)))"
      using assms Some True d
      by (auto simp: updateGameLogic_def lookup_Own Let_def split: prod.splits if_splits)
    then show ?thesis by blast
  qed
qed

text \<open>The obstacles and timers after a step.\<close>

lemma step_obstacles:
  assumes "step e st = Inr st'"
  shows "(obstacles st' = obstacles st \<and> (\<forall>t. t \<in> set (timers st') \<longrightarrow> t \<in> set (timers st)))
    \<or> (\<exists>p1. obstacles st' = fst (snd (obstaclePass 0 (obstacles st) p1))
           \<and> timers st' = timers st @ snd (snd (obstaclePass 0 (obstacles st) p1)))
    \<or> (\<exists>j. e = Timer (ReactivateObstacle j) \<and> ReactivateObstacle j \<in> set (timers st)
           \<and> j < length (obstacles st)
           \<and> obstacles st' = (obstacles st)[j := (obstacles st ! j)\<lparr>collided := False\<rparr>]
           \<and> (\<forall>t. t \<in> set (timers st') \<longrightarrow> t \<in> set (timers st)))"
proof (cases e)
  case (Connect q)
  then show ?thesis using assms
    by (auto simp: connection_def split: option.splits list.splits prod.splits found.splits)
next
  case (Join k d)
  then show ?thesis using assms
    by (auto simp: join_game_def split: option.splits found.splits if_splits)
next
  case (Sensor now k d)
  then have "updateGameLogic now k d st = Inr st' \<or> st' = st"
    using assms sensor_cases [of now k d st st'] by auto
  then show ?thesis using updateGameLogic_obstacles [of now k d st st'] by auto
next
  case (Disconnect k)
  then show ?thesis using assms by (auto simp: disconnect_def)
next
  case (Timer t)
  show ?thesis
  proof (cases "t \<in> set (timers st)")
    case False
    then show ?thesis using assms Timer by simp
  next
    case True
    show ?thesis
    proof (cases t)
      case (ReactivateObstacle j)
      then show ?thesis using assms Timer True
        by (cases "j < length (obstacles st)") (auto dest: notin_set_remove1)
    next
      case (ExpireBoost ob)
      then show ?thesis using assms Timer True by (auto dest: notin_set_remove1)
    qed
  qed
qed

lemma timers_ok_iff:
  "timers_ok st \<longleftrightarrow>
     (\<forall>j. ReactivateObstacle j \<in> set (timers st)
          \<longrightarrow> j < length (obstacles st) \<and> type_o (obstacles st ! j) = Box)"
proof -
  have "timers_ok st \<longleftrightarrow>
     (\<forall>t \<in> set (timers st). case t of
          ReactivateObstacle j \<Rightarrow> j < length (obstacles st) \<and> type_o (obstacles st ! j) = Box
        | ExpireBoost _ \<Rightarrow> True)"
    by (simp add: timers_ok_def list_all_iff)
  also have "\<dots> \<longleftrightarrow> (\<forall>j. ReactivateObstacle j \<in> set (timers st)
          \<longrightarrow> j < length (obstacles st) \<and> type_o (obstacles st ! j) = Box)"
    by (auto split: task.splits)
  finally show ?thesis .
qed

lemma map_update_same: "j < length xs \<Longrightarrow> (map f xs)[j := f (xs ! j)] = map f xs"
  by (simp add: list_eq_iff_nth_eq nth_list_update)

lemma step_types:
  assumes "step e st = Inr st'"
  shows "map type_o (obstacles st') = map type_o (obstacles st)"
  using step_obstacles [OF assms]
  by (auto simp: obstaclePass_types map_update map_update_same)

lemma step_timers_ok:
  assumes "timers_ok st" and "step e st = Inr st'"
  shows "timers_ok st'"
proof -
  have ty: "map type_o (obstacles st') = map type_o (obstacles st)"
    by (rule step_types [OF assms(2)])
  then have len: "length (obstacles st') = length (obstacles st)"
    by (rule map_eq_imp_length_eq)
  have old: "ReactivateObstacle j \<in> set (timers st)
        \<Longrightarrow> j < length (obstacles st) \<and> type_o (obstacles st ! j) = Box" for j
    using assms(1) by (simp add: timers_ok_iff)
  have new: "ReactivateObstacle j \<in> set (snd (snd (obstaclePass 0 (obstacles st) p1)))
        \<Longrightarrow> j < length (obstacles st) \<and> type_o (obstacles st ! j) = Box" for j p1
    using obstaclePass_tasks [of j 0 "obstacles st" p1] by simp
  have "ReactivateObstacle j \<in> set (timers st')
        \<Longrightarrow> j < length (obstacles st) \<and> type_o (obstacles st ! j) = Box" for j
    using step_obstacles [OF assms(2)] old [of j] new [of j] by auto
  moreover have "type_o (obstacles st' ! j) = type_o (obstacles st ! j)"
    if "j < length (obstacles st)" for j
    using ty len that by (metis nth_map)
  ultimately show ?thesis using len by (simp add: timers_ok_iff)
qed



lemma timers_ok_run:
  assumes "run st es = Inr st'" and "timers_ok st"
  shows "timers_ok st'"
  using assms
proof (induction es arbitrary: st)
  case Nil
  then show ?case by simp
next
  case (Cons e es)
  from Cons.prems(1) obtain st1 where s1: "step e st = Inr st1" and r: "run st1 es = Inr st'"
    by (auto split: sum.splits)
  show ?case by (rule Cons.IH [OF r step_timers_ok [OF Cons.prems(2) s1]])
qed

lemma timers_ok_initial: "timers_ok initial"
  by (simp add: timers_ok_def initial_def)

lemma timers_ok_reached: "run initial es = Inr st \<Longrightarrow> timers_ok st"
  using timers_ok_run [of initial es st] timers_ok_initial by simp



section \<open>The status of a player along a run\<close>

lemma updated_status:
  assumes "status p = Playing"
  shows "status (updated now k d st p) = Playing \<or> status (updated now k d st p) = Finished"
proof -
  have "status (afterPlayers k st (afterObstacles st (processInput d p))) = status (processInput d p)"
    using passes_unmoved [of "processInput d p" k st] by (simp add: unmoved_def)
  moreover have "status (processInput d p) = status p"
    by (simp add: processInput_def Let_def charge_def)
  ultimately show ?thesis
    using assms by (simp add: updated_def lapCheck_def Let_def)
qed

lemma updateGameLogic_status_self:
  assumes "updateGameLogic now k data st = Inr st'" and "map_of (players st) k = Some p"
  shows "\<exists>p'. map_of (players st') k = Some p'
           \<and> (status p' = status p \<or> (status p = Playing \<and> status p' = Finished))"
proof (cases "status p = Playing")
  case False
  then have "st' = st" using assms by (simp add: updateGameLogic_def lookup_Own)
  then show ?thesis using assms(2) by simp
next
  case playing: True
  then obtain d where d: "data = Some d"
    using assms by (cases data) (simp_all add: updateGameLogic_def lookup_Own)
  obtain st2 where "updateGameLogic now k (Some d) st = Inr st2"
    "map_of (players st2) k = Some (updated now k d st p)"
    using updateGameLogic_playing [OF assms(2) playing] by blast
  then have "map_of (players st') k = Some (updated now k d st p)"
    using assms(1) d by simp
  then show ?thesis using updated_status [OF playing, of now k d st] playing by auto
qed

lemma updateGameLogic_status_other:
  assumes "updateGameLogic now k' data st = Inr st'" and "k \<noteq> k'"
  shows "status_in st' k = status_in st k"
  using updateGameLogic_others [OF assms]
  by (auto simp: status_in_def split: option.splits)

lemma map_of_map_snd:
  "map_of (map (\<lambda>(k, p). (k, f p)) s) k = map_option f (map_of s k)"
  by (induction s) auto

lemma connection_players:
  "players (snd (connection q st)) = players st
   \<or> (\<exists>c ob. map_of (players st) c = None
         \<and> players (snd (connection q st)) = players st @ [(c, newPlayer c ob)])"
  by (auto simp: connection_def lookup_def
      split: option.splits list.splits prod.splits found.splits if_splits)

lemma join_game_players:
  assumes "join_game k' data st = Inr st'"
  shows "(map_of (players st) k' = None \<and> players st' = players st)
    \<or> (\<exists>q. map_of (players st) k' \<noteq> None \<and> status q = Playing
          \<and> map_of (players st') = (map_of (players st))(k' \<mapsto> q))"
proof (cases "map_of (players st) k'")
  case None
  then show ?thesis
    using assms
    by (auto simp: join_game_def lookup_def split: option.splits found.splits if_splits)
next
  case (Some p)
  then obtain d where d: "data = Some d"
    using assms by (cases data) (simp_all add: join_game_def)
  let ?q = "p\<lparr>status := Playing, mode := mode_j d, z := Fin 0, lap := 0, points := 0,
              gekitotsuForce := Fin 0, finishTime := None\<rparr>"
  have "map_of (players st') = (map_of (players st))(k' \<mapsto> ?q)"
    using assms Some d by (auto simp: join_game_def lookup_Own update_conv')
  moreover have "status ?q = Playing" by simp
  ultimately show ?thesis using Some by blast
qed

lemma fire_status: "status_in (fire t st) k = status_in st k"
proof (cases t)
  case (ReactivateObstacle j)
  then show ?thesis by (simp add: status_in_def)
next
  case (ExpireBoost ob)
  have "map_option status
          (map_option (\<lambda>p. if obj p = ob then p\<lparr>speed_x2_active := False\<rparr> else p)
             (map_of (players st) k))
        = map_option status (map_of (players st) k)"
    by (cases "map_of (players st) k") simp_all
  then show ?thesis using ExpireBoost by (simp add: status_in_def map_of_map_snd)
qed

text \<open>One event and the status of a player that is in the store before it.\<close>

lemma step_status:
  assumes "step e st = Inr st'" and "map_of (players st) k = Some p"
  shows "status_move e k (status p) (status_in st' k)"
proof (cases e)
  case (Connect q)
  then have st': "st' = snd (connection q st)" using assms(1) by simp
  show ?thesis
    using connection_players [of q st] assms(2) Connect
    by (auto simp: st' status_in_def map_add_def)
next
  case (Join k' d)
  then have "join_game k' d st = Inr st'" using assms(1) by simp
  then show ?thesis
    using join_game_players [of k' d st st'] assms(2) Join
    by (auto simp: status_in_def)
next
  case (Sensor now k' d)
  then have "sensor now k' d st = Inr st'" using assms(1) by simp
  then consider "st' = st" | "updateGameLogic now k' d st = Inr st'"
    using sensor_cases by blast
  then show ?thesis
  proof cases
    case 1
    then show ?thesis using assms(2) Sensor by (simp add: status_in_def)
  next
    case 2
    show ?thesis
    proof (cases "k' = k")
      case True
      then show ?thesis
        using updateGameLogic_status_self [of now k d st st' p] 2 assms(2) Sensor
        by (auto simp: status_in_def)
    next
      case False
      then show ?thesis
        using updateGameLogic_status_other [OF 2, of k] assms(2) Sensor
        by (simp add: status_in_def)
    qed
  qed
next
  case (Disconnect k')
  then show ?thesis using assms by (auto simp: disconnect_def delete_conv' status_in_def)
next
  case (Timer t)
  then show ?thesis
    using assms fire_status [of t "st\<lparr>timers := remove1 t (timers st)\<rparr>" k]
    by (auto simp: status_in_def split: if_splits)
qed

text \<open>One event and an identifier that has no player before it.\<close>

lemma step_enter:
  assumes "step e st = Inr st'" and "map_of (players st) k = None"
  shows "status_enter e (status_in st' k)"
proof (cases e)
  case (Connect q)
  then have st': "st' = snd (connection q st)" using assms(1) by simp
  show ?thesis
    using connection_players [of q st] assms(2) Connect
    by (auto simp: st' status_in_def map_add_def newPlayer_def)
next
  case (Join k' d)
  then have "join_game k' d st = Inr st'" using assms(1) by simp
  then show ?thesis
    using join_game_players [of k' d st st'] assms(2) Join
    by (auto simp: status_in_def)
next
  case (Sensor now k' d)
  then have "sensor now k' d st = Inr st'" using assms(1) by simp
  then consider "st' = st" | "updateGameLogic now k' d st = Inr st'"
    using sensor_cases by blast
  then show ?thesis
  proof cases
    case 1
    then show ?thesis using assms(2) Sensor by (simp add: status_in_def)
  next
    case 2
    show ?thesis
    proof (cases "k' = k")
      case True
      then have "st' = st" using updateGameLogic_not_own [OF assms(2)] 2 by simp
      then show ?thesis using assms(2) Sensor by (simp add: status_in_def)
    next
      case False
      then show ?thesis
        using updateGameLogic_status_other [OF 2, of k] assms(2) Sensor
        by (simp add: status_in_def)
    qed
  qed
next
  case (Disconnect k')
  then show ?thesis using assms by (auto simp: disconnect_def delete_conv' status_in_def)
next
  case (Timer t)
  then show ?thesis
    using assms fire_status [of t "st\<lparr>timers := remove1 t (timers st)\<rparr>" k]
    by (auto simp: status_in_def split: if_splits)
qed

lemma status_move_rank:
  assumes "status_move e k s r" and "stays k e"
  shows "\<exists>s'. r = Some s' \<and> status_rank s \<le> status_rank s'"
  using assms by (cases e) (auto split: if_splits)

lemma run_status:
  assumes "run st es = Inr st'" and "map_of (players st) k = Some p"
    and "list_all (stays k) es"
  shows "\<exists>p'. map_of (players st') k = Some p' \<and> status_rank (status p) \<le> status_rank (status p')"
  using assms
proof (induction es arbitrary: st p)
  case Nil
  then show ?case by simp
next
  case (Cons e es)
  from Cons.prems(1) obtain st1 where s1: "step e st = Inr st1" and r: "run st1 es = Inr st'"
    by (auto split: sum.splits)
  from Cons.prems(3) have e: "stays k e" and es: "list_all (stays k) es" by simp_all
  obtain s1' where "status_in st1 k = Some s1'" "status_rank (status p) \<le> status_rank s1'"
    using status_move_rank [OF step_status [OF s1 Cons.prems(2)] e] by blast
  then obtain p1 where p1: "map_of (players st1) k = Some p1"
      "status_rank (status p) \<le> status_rank (status p1)"
    by (auto simp: status_in_def)
  obtain p' where p': "map_of (players st') k = Some p'"
      "status_rank (status p1) \<le> status_rank (status p')"
    using Cons.IH [OF r p1(1) es] by blast
  show ?case using p' p1(2) by auto
qed

text \<open>
  C1, as the code has it. For every event (a connection, a join, a sample, a disconnect or
  a timer) that is handled without an exception: a player that is in the store before it
  is set to playing by its own join, whatever its status was, is removed by its own
  disconnect, keeps its status or goes from playing to finished by its own sample, and
  keeps its status through every other event; an identifier without a player gets one
  only by a connection, in the lobby. Hence along a run of events that neither joins nor
  disconnects a player, the player stays in the store and its status is at the end the
  same or further along lobby, playing, finished.
\<close>

theorem C1_status_moves:
  "(\<forall>e st1 k p. step e st = Inr st1 \<and> map_of (players st) k = Some p
        \<longrightarrow> status_move e k (status p) (status_in st1 k))
   \<and> (\<forall>e st1 k. step e st = Inr st1 \<and> map_of (players st) k = None
        \<longrightarrow> status_enter e (status_in st1 k))
   \<and> (\<forall>es st' k p. run st es = Inr st' \<and> map_of (players st) k = Some p
          \<and> list_all (stays k) es
        \<longrightarrow> (\<exists>p'. map_of (players st') k = Some p'
                \<and> status_rank (status p) \<le> status_rank (status p')))"
proof (intro conjI allI impI)
  fix e st1 k p
  assume "step e st = Inr st1 \<and> map_of (players st) k = Some p"
  then show "status_move e k (status p) (status_in st1 k)"
    using step_status by blast
next
  fix e st1 k
  assume "step e st = Inr st1 \<and> map_of (players st) k = None"
  then show "status_enter e (status_in st1 k)"
    using step_enter by blast
next
  fix es st' k p
  assume "run st es = Inr st' \<and> map_of (players st) k = Some p \<and> list_all (stays k) es"
  then show "\<exists>p'. map_of (players st') k = Some p'
                \<and> status_rank (status p) \<le> status_rank (status p')"
    using run_status by blast
qed

section \<open>A whole race, and a join after it\<close>

lemma far: "d \<le> c \<Longrightarrow> \<not> (c + t * t < (d::real))"
  using zero_le_square [of t] by linarith

lemma cruise_step:
  assumes "- 1000 \<le> zz - 3"
  shows "step idle (race1_at zz l) = Inr (race1_at (zz - 3) l)"
  using assms
  by (simp add: eval_simps idle_def race1_at_def race1_def racer_def far)

lemma cruise:
  assumes "- 1000 \<le> zz - 3 * real n"
  shows "run (race1_at zz l) (replicate n idle @ es) = run (race1_at (zz - 3 * real n) l) es"
  using assms
proof (induction n arbitrary: zz)
  case 0
  show ?case by simp
next
  case (Suc n)
  have a: "- 1000 \<le> zz - 3" using Suc.prems by simp
  have b: "- 1000 \<le> (zz - 3) - 3 * real n" using Suc.prems by (simp add: algebra_simps)
  have c: "zz - 3 - 3 * real n = zz - 3 * real (Suc n)" by (simp add: algebra_simps)
  show ?case
    using Suc.IH [OF b] by (simp add: cruise_step [OF a] c)
qed

lemma cross_step: "step idle (race1_at (- 999) 0) = Inr (race1_at (- 2) 1)"
  by (simp add: eval_simps idle_def race1_at_def race1_def racer_def)

lemma finish_step: "step idle (race1_at (- 998) 1) = Inr finished1"
  by (simp add: eval_simps idle_def race1_at_def race1_def racer_def finished1_def)

lemma run_append:
  "run st (es @ es') = (case run st es of Inl err \<Rightarrow> Inl err | Inr st1 \<Rightarrow> run st1 es')"
  by (induction es arbitrary: st) (simp_all split: sum.splits)

lemma edge_step:
  "step (Sensor 0 ''P1'' (Some (sample (Num (Fin 2500)) Undefined))) race1 = Inr (race1_at (- 3) 0)"
  by (simp add: eval_simps race1_at_def race1_def racer_def)

lemma start_steps:
  "run initial ([Connect None, Join ''P1'' multi,
                 Sensor 0 ''P1'' (Some (sample (Num (Fin 2500)) Undefined))] @ es)
     = run (race1_at (- 3) 0) es"
proof -
  let ?s = "Sensor 0 ''P1'' (Some (sample (Num (Fin 2500)) Undefined))"
  have a: "run initial ([Connect None, Join ''P1'' multi] @ (?s # es)) = run race1 (?s # es)"
    by (simp only: run_append race1_reached sum.case)
  have b: "run race1 (?s # es) = run (race1_at (- 3) 0) es"
    by (simp only: run.simps edge_step sum.case)
  have "[Connect None, Join ''P1'' multi, ?s] @ es = [Connect None, Join ''P1'' multi] @ (?s # es)"
    by simp
  then show ?thesis by (simp only: a b)
qed

lemma race_to_finish_reaches: "run initial race_to_finish = Inr finished1"
proof -
  have "run initial race_to_finish
      = run (race1_at (- 3) 0) (replicate 332 idle @ [idle] @ replicate 332 idle @ [idle])"
    unfolding race_to_finish_def by (rule start_steps)
  also have "\<dots> = run (race1_at (- 999) 0) ([idle] @ replicate 332 idle @ [idle])"
    using cruise [of "- 3" 332 0] by simp
  also have "\<dots> = run (race1_at (- 2) 1) (replicate 332 idle @ [idle])"
    by (simp add: cross_step)
  also have "\<dots> = run (race1_at (- 998) 1) [idle]"
    using cruise [of "- 2" 332 1] by simp
  also have "\<dots> = Inr finished1"
    by (simp add: finish_step)
  finally show ?thesis .
qed

theorem C1_status_moves_witness:
  "status_move idle ''P1'' Playing (status_in finished1 ''P1'')
   \<and> status_in finished1 ''P1'' = Some Finished
   \<and> status_enter idle (status_in finished1 ''P2'')
   \<and> (\<exists>p'. map_of (players finished1) ''P1'' = Some p'
          \<and> status_rank Playing \<le> status_rank (status p'))"
proof -
  let ?p = "(racer ''P1'' 0 ''multi'')\<lparr>x := Fin 250, z := Fin (- 998), speed := Fin 3, lap := 1\<rparr>"
  have h0: "step idle (race1_at (- 998) 1) = Inr finished1"
    by (rule finish_step)
  have h1: "run (race1_at (- 998) 1) [idle, Connect (Some ''P1''), Timer (ExpireBoost 0)] = Inr finished1"
    by (simp add: finish_step connection_def lookup_def finished1_def race1_def)
  have h2: "map_of (players (race1_at (- 998) 1)) ''P1'' = Some ?p"
    by (simp add: race1_at_def)
  have h3: "list_all (stays ''P1'') [idle, Connect (Some ''P1''), Timer (ExpireBoost 0)]"
    by (simp add: idle_def)
  have h4: "map_of (players (race1_at (- 998) 1)) ''P2'' = None"
    by (simp add: race1_at_def)
  have h5: "status ?p = Playing"
    by (simp add: racer_def)
  have h6: "status_in finished1 ''P1'' = Some Finished"
    by (simp add: status_in_def finished1_def)
  show ?thesis
    using C1_status_moves [of "race1_at (- 998) 1"] h0 h1 h2 h3 h4 h5 h6 by metis
qed

text \<open>
  The claim C1 without the exception for joins fails. The run \<open>race_to_finish\<close> from the
  initial state ends with the player \<open>P1\<close> finished; one more join of \<open>P1\<close> and its
  status is playing again.
\<close>

theorem C1_join_moves_finished_back_to_playing:
  "statuses (run initial race_to_finish) = [(''P1'', Finished)]
   \<and> statuses (run initial (race_to_finish @ [Join ''P1'' multi])) = [(''P1'', Playing)]"
  by (simp add: run_append race_to_finish_reaches statuses_def finished1_def race1_def
      join_game_def lookup_def multi_def)

end
